theory Spec2Isabelle
  imports Complex_Main "HOL-Library.List_Lexorder" "HOL-Library.AList" "HOL-Library.Multiset"
begin

section \<open>JavaScript strings and values\<close>

text \<open>
  A JavaScript string is a sequence of UTF-16 code units, and the string methods the
  sources call (\<open>split\<close>, \<open>includes\<close>, \<open>startsWith\<close>, \<open>join\<close>, the default \<open>sort\<close>)
  work code unit by code unit. A code unit is a number below \<open>2^16\<close>; nothing below
  does arithmetic that could leave that range, and the bound is not used. \<open>js\<close> gives
  the string of an ASCII literal.
\<close>

type_synonym code_unit = nat

type_synonym jsstring = "code_unit list"

definition cu :: "char \<Rightarrow> code_unit" where
  "cu c = of_char c"

definition js :: "string \<Rightarrow> jsstring" where
  "js s = map cu s"

declare cu_def [simp] js_def [simp]

text \<open>
  A thrown value: an \<open>Error\<close> instance with its name and message, or something else
  (\<open>error instanceof Error\<close> is false). A failing \<open>fs/promises\<close> call rejects with an
  \<open>Error\<close> instance whose message Node has built (for a system error
  \<open>CODE: description, syscall\<close>, with the path where there is one); that message is
  never empty, and is kept as its first code unit and the rest.
\<close>

datatype thrown = ErrorObject jsstring jsstring | NonError

datatype fs_error = FsError code_unit jsstring

fun fs_message :: "fs_error \<Rightarrow> jsstring" where
  "fs_message (FsError c cs) = c # cs"

definition fs_throw :: "fs_error \<Rightarrow> thrown" where
  "fs_throw e = ErrorObject (js ''Error'') (fs_message e)"

text \<open>\<open>error instanceof Error ? error.message : fallback\<close>\<close>

fun message_or :: "thrown \<Rightarrow> jsstring \<Rightarrow> jsstring" where
  "message_or (ErrorObject name msg) fallback = msg"
| "message_or NonError fallback = fallback"

text \<open>
  Values of type \<open>any\<close> as the parsers produce them. A finite double is a rational;
  \<open>Finite 0\<close> is \<open>+0\<close>. \<open>JHost\<close> stands for objects of the runtime such as \<open>Date\<close>.
\<close>

datatype jsnumber = NaN | NegZero | Infinite bool | Finite rat

datatype jsval =
    JUndefined
  | JNull
  | JBool bool
  | JNum jsnumber
  | JStr jsstring
  | JArr "jsval list"
  | JObj "(jsstring \<times> jsval) list"
  | JHost jsstring

fun truthy :: "jsval \<Rightarrow> bool" where
  "truthy JUndefined = False"
| "truthy JNull = False"
| "truthy (JBool b) = b"
| "truthy (JNum n) = (n \<noteq> NaN \<and> n \<noteq> NegZero \<and> n \<noteq> Finite 0)"
| "truthy (JStr s) = (s \<noteq> [])"
| "truthy (JArr xs) = True"
| "truthy (JObj kvs) = True"
| "truthy (JHost h) = True"

text \<open>Truthiness of an optional property (\<open>undefined\<close> when absent).\<close>

fun truthy_string :: "jsstring option \<Rightarrow> bool" where
  "truthy_string None = False"
| "truthy_string (Some s) = (s \<noteq> [])"

fun truthy_any :: "jsval option \<Rightarrow> bool" where
  "truthy_any None = False"
| "truthy_any (Some v) = truthy v"

section \<open>The runtime: file system, home directory, parsers, case mapping\<close>

text \<open>
  What the process gets from Node and from the libraries it imports. \<open>String_toLowerCase\<close>
  is \<open>String.prototype.toLowerCase\<close> of the engine, with the case mapping of Unicode.
\<close>

record stats =
  isFile :: bool
  isDirectory :: bool

record runtime =
  homedir :: jsstring
  fs_access :: "jsstring \<Rightarrow> fs_error option"
  fs_stat :: "jsstring \<Rightarrow> fs_error + stats"
  fs_readFile :: "jsstring \<Rightarrow> fs_error + jsstring"
  fs_readdir :: "jsstring \<Rightarrow> fs_error + jsstring list"
  JSON_parse :: "jsstring \<Rightarrow> thrown + jsval"
  plist_parse :: "jsstring \<Rightarrow> thrown + jsval"
  yaml_load :: "jsstring \<Rightarrow> thrown + jsval"
  JSON_stringify :: "jsval \<Rightarrow> jsstring"
  String_toLowerCase :: "jsstring \<Rightarrow> jsstring"

section \<open>String methods\<close>

text \<open>
  \<open>toLowerCase\<close>. On a string of ASCII code units the case mapping of Unicode is the
  mapping of \<open>A\<close>..\<open>Z\<close> to \<open>a\<close>..\<open>z\<close>, in every engine and locale; on any other string
  the result is the engine's.
\<close>

definition toLowerCase_unit :: "code_unit \<Rightarrow> code_unit" where
  "toLowerCase_unit c = (if cu CHR ''A'' \<le> c \<and> c \<le> cu CHR ''Z'' then c + 32 else c)"

definition is_ascii :: "jsstring \<Rightarrow> bool" where
  "is_ascii s \<longleftrightarrow> list_all (\<lambda>c. c < 128) s"

definition toLowerCase :: "runtime \<Rightarrow> jsstring \<Rightarrow> jsstring" where
  "toLowerCase rt s = (if is_ascii s then map toLowerCase_unit s else String_toLowerCase rt s)"



fun startsWith :: "jsstring \<Rightarrow> jsstring \<Rightarrow> bool" where
  "startsWith s [] = True"
| "startsWith [] (t # ts) = False"
| "startsWith (c # cs) (t # ts) = (c = t \<and> startsWith cs ts)"


text \<open>
  \<open>s.split(sep)\<close> for a separator of one code unit, scanning with the piece read so far;
  the empty string splits into one empty piece.
\<close>

fun split_from :: "code_unit \<Rightarrow> jsstring \<Rightarrow> jsstring \<Rightarrow> jsstring list" where
  "split_from sep piece [] = [piece]"
| "split_from sep piece (c # cs) =
     (if c = sep then piece # split_from sep [] cs else split_from sep (piece @ [c]) cs)"

definition split_str :: "code_unit \<Rightarrow> jsstring \<Rightarrow> jsstring list" where
  "split_str sep s = split_from sep [] s"

fun join_str :: "jsstring \<Rightarrow> jsstring list \<Rightarrow> jsstring" where
  "join_str sep [] = []"
| "join_str sep [x] = x"
| "join_str sep (x # y # ys) = x @ sep @ join_str sep (y # ys)"

text \<open>Number-to-string conversion of a non-negative integer (template literals).\<close>

fun show_nat :: "nat \<Rightarrow> jsstring" where
  "show_nat n =
     (if n < 10 then [cu CHR ''0'' + n]
      else show_nat (n div 10) @ [cu CHR ''0'' + n mod 10])"

declare show_nat.simps [simp del]

text \<open>
  The default \<open>sort\<close> of an array of strings compares them code unit by code unit, a
  proper prefix before its extensions: the lexicographic order of the lists.
\<close>

definition sort_strings :: "jsstring list \<Rightarrow> jsstring list" where
  "sort_strings xs = sort xs"

text \<open>
  \<open>GetSubstitution\<close> of \<open>String.prototype.replace\<close> for a pattern without capture groups:
  in the replacement text \<open>$$\<close> stands for a dollar sign, \<open>$&\<close> for the matched text,
  \<open>$`\<close> for the text before the match and \<open>$'\<close> for the text after it; any other
  dollar sign is literal.
\<close>

fun getSubstitution :: "jsstring \<Rightarrow> jsstring \<Rightarrow> jsstring \<Rightarrow> jsstring \<Rightarrow> jsstring" where
  "getSubstitution matched before after [] = []"
| "getSubstitution matched before after [c] = [c]"
| "getSubstitution matched before after (c # d # ds) =
     (if c = cu CHR ''$'' \<and> d = cu CHR ''$''
      then cu CHR ''$'' # getSubstitution matched before after ds
      else if c = cu CHR ''$'' \<and> d = cu CHR ''&''
      then matched @ getSubstitution matched before after ds
      else if c = cu CHR ''$'' \<and> d = cu (CHR 0x60)
      then before @ getSubstitution matched before after ds
      else if c = cu CHR ''$'' \<and> d = cu (CHR 0x27)
      then after @ getSubstitution matched before after ds
      else c # getSubstitution matched before after (d # ds))"

section \<open>Config registry (app-config-mapping.ts)\<close>

datatype location_type = File | Directory

datatype location_format = Json | Plist | Yaml | Text | DirectoryFormat

fun format_string :: "location_format \<Rightarrow> jsstring" where
  "format_string Json = js ''json''"
| "format_string Plist = js ''plist''"
| "format_string Yaml = js ''yaml''"
| "format_string Text = js ''text''"
| "format_string DirectoryFormat = js ''directory''"

record ConfigLocation =
  path :: jsstring
  type :: location_type
  description :: jsstring
  format :: location_format

text \<open>
  The field \<open>configs\<close> of an application holds a reference to an array object.
  \<open>addConfigLocation\<close> pushes onto that object and \<open>updateAppConfigs\<close> stores the array
  it is given, so two applications can come to share one array; the arrays are therefore
  kept in a store, and a reference is an index into it. The location objects themselves
  are never written to by this module and are kept by value.
\<close>

type_synonym array_ref = nat

record AppConfig =
  displayName :: jsstring
  bundleId :: "jsstring option"
  configs :: array_ref

text \<open>
  The process-wide state: the static field \<open>APP_CONFIGS\<close>, as the list of the own
  properties of the table in insertion order, and the arrays of the process. The table is
  a plain object literal, so an index access that finds no own property continues along
  the prototype chain to \<open>Object.prototype\<close>. The model describes the process as long
  as the built-in objects are as the runtime provides them, where neither \<open>Object\<close> nor
  \<open>Object.prototype\<close> has a property \<open>configs\<close>. The server never leaves that state; of
  the operations below only \<open>updateAppConfigs\<close> could, and its result says so.
\<close>

record registry =
  APP_CONFIGS :: "(jsstring \<times> AppConfig) list"
  arrays :: "ConfigLocation list list"

definition gemini_settings :: ConfigLocation where
  "gemini_settings =
     \<lparr> path = js ''~/.gemini/settings.json'', type = File,
       description = js ''Gemini settings configuration'', format = Json \<rparr>"

definition claude_desktop_config :: ConfigLocation where
  "claude_desktop_config =
     \<lparr> path = js ''~/Library/Application Support/Claude/claude_desktop_config.json'',
       type = File, description = js ''Claude Desktop configuration'', format = Json \<rparr>"

definition claude_code_directory :: ConfigLocation where
  "claude_code_directory =
     \<lparr> path = js ''~/.claude/'', type = Directory,
       description = js ''Claude Code configuration directory'', format = DirectoryFormat \<rparr>"

definition vscode_mcp :: ConfigLocation where
  "vscode_mcp =
     \<lparr> path = js ''~/.vscode/mcp.json'', type = File,
       description = js ''VS Code MCP configuration'', format = Json \<rparr>"

definition cursor_location :: ConfigLocation where
  "cursor_location =
     \<lparr> path = js ''~/.cursor/mcp.json'', type = File,
       description = js ''Cursor MCP configuration'', format = Json \<rparr>"

definition initial_registry :: registry where
  "initial_registry =
     \<lparr> APP_CONFIGS =
         [ (js ''gemini'',
             \<lparr> displayName = js ''Google Gemini'', bundleId = None, configs = 0 \<rparr>),
           (js ''claude desktop'',
             \<lparr> displayName = js ''Claude Desktop'', bundleId = None, configs = 1 \<rparr>),
           (js ''claude code'',
             \<lparr> displayName = js ''Claude Code'', bundleId = None, configs = 2 \<rparr>),
           (js ''vscode'',
             \<lparr> displayName = js ''Visual Studio Code'',
               bundleId = Some (js ''com.microsoft.VSCode''), configs = 3 \<rparr>),
           (js ''cursor'',
             \<lparr> displayName = js ''Cursor'', bundleId = None, configs = 4 \<rparr>) ],
       arrays =
         [ [gemini_settings], [claude_desktop_config], [claude_code_directory], [vscode_mcp],
           [cursor_location] ] \<rparr>"

text \<open>\<open>path.replace(/^~/, homedir())\<close>: only a tilde at position 0 matches.\<close>

fun expandPath :: "jsstring \<Rightarrow> jsstring \<Rightarrow> jsstring" where
  "expandPath home [] = []"
| "expandPath home (c # rest) =
     (if c = cu CHR ''~'' then getSubstitution (js ''~'') [] rest home @ rest else c # rest)"

definition getAvailableApps :: "registry \<Rightarrow> jsstring list" where
  "getAvailableApps reg = map fst (APP_CONFIGS reg)"

text \<open>
  The value of \<open>this.APP_CONFIGS[k]\<close>: an own entry, else what \<open>Object.prototype\<close>
  provides under that name, else \<open>undefined\<close>.
\<close>

datatype property_value = Undefined | Entry AppConfig | ObjectConstructor | ObjectPrototype

text \<open>
  The key is lower-cased before the access. Of the property names of \<open>Object.prototype\<close>
  only \<open>constructor\<close> and \<open>__proto__\<close> are left unchanged by \<open>toLowerCase\<close> (the others
  are \<open>toString\<close>, \<open>toLocaleString\<close>, \<open>valueOf\<close>, \<open>hasOwnProperty\<close>, \<open>isPrototypeOf\<close>,
  \<open>propertyIsEnumerable\<close>, \<open>__defineGetter__\<close>, \<open>__defineSetter__\<close>, \<open>__lookupGetter__\<close>,
  \<open>__lookupSetter__\<close>), so only these two can equal a lower-cased key.
\<close>

definition getAppConfig :: "runtime \<Rightarrow> registry \<Rightarrow> jsstring \<Rightarrow> property_value" where
  "getAppConfig rt reg appKey =
     (let k = toLowerCase rt appKey in
      case map_of (APP_CONFIGS reg) k of
        Some app \<Rightarrow> Entry app
      | None \<Rightarrow>
          if k = js ''constructor'' then ObjectConstructor
          else if k = js ''__proto__'' then ObjectPrototype
          else Undefined)"

text \<open>
  Reading the property \<open>configs\<close> of such a value: for an application entry the array
  it refers to; the two built-in objects have none (\<open>None\<close> is \<open>undefined\<close>).
\<close>

fun configs_property :: "registry \<Rightarrow> property_value \<Rightarrow> ConfigLocation list option" where
  "configs_property reg (Entry app) = Some (arrays reg ! configs app)"
| "configs_property reg ObjectConstructor = None"
| "configs_property reg ObjectPrototype = None"
| "configs_property reg Undefined = None"

text \<open>
  The body of the \<open>try\<close> block for one candidate: \<open>access\<close>, then \<open>stat\<close>, then the
  comparison of the declared type with the kind found. \<open>Inl\<close> is a rejected promise.
\<close>

definition check_candidate ::
    "runtime \<Rightarrow> ConfigLocation \<Rightarrow> jsstring \<Rightarrow> fs_error + ConfigLocation option" where
  "check_candidate rt config expandedPath =
     (case fs_access rt expandedPath of
        Some e \<Rightarrow> Inl e
      | None \<Rightarrow>
          (case fs_stat rt expandedPath of
             Inl e \<Rightarrow> Inl e
           | Inr st \<Rightarrow>
               if (type config = File \<and> isFile st) \<or> (type config = Directory \<and> isDirectory st)
               then Inr (Some (config\<lparr>path := expandedPath\<rparr>))
               else Inr None))"

text \<open>The \<open>for\<close> loop with its \<open>catch\<close>: a failing candidate is skipped.\<close>

fun findConfigs_loop ::
    "runtime \<Rightarrow> ConfigLocation list \<Rightarrow> ConfigLocation list \<Rightarrow> ConfigLocation list" where
  "findConfigs_loop rt [] validConfigs = validConfigs"
| "findConfigs_loop rt (config # rest) validConfigs =
     (case check_candidate rt config (expandPath (homedir rt) (path config)) of
        Inl e \<Rightarrow> findConfigs_loop rt rest validConfigs
      | Inr None \<Rightarrow> findConfigs_loop rt rest validConfigs
      | Inr (Some v) \<Rightarrow> findConfigs_loop rt rest (validConfigs @ [v]))"

text \<open>
  \<open>findConfigsForApp\<close>. \<open>Inl\<close> is the rejection of the returned promise: iterating
  over \<open>appConfig.configs\<close> when that property is \<open>undefined\<close> raises a \<open>TypeError\<close>
  outside the \<open>try\<close> block.
\<close>

definition findConfigsForApp :: "runtime \<Rightarrow> registry \<Rightarrow> jsstring \<Rightarrow> thrown + ConfigLocation list" where
  "findConfigsForApp rt reg appKey =
     (case getAppConfig rt reg appKey of
        Undefined \<Rightarrow> Inr []
      | appConfig \<Rightarrow>
          (case configs_property reg appConfig of
             None \<Rightarrow> Inl (ErrorObject (js ''TypeError'') (js ''appConfig.configs is not iterable''))
           | Some cs \<Rightarrow> Inr (findConfigs_loop rt cs [])))"

text \<open>
  \<open>addConfigLocation\<close>: \<open>app.configs.push(configLocation)\<close> when the looked-up value is
  truthy. The push changes the array object the entry refers to, in place. Reading
  \<open>push\<close> of \<open>undefined\<close> raises a \<open>TypeError\<close>.
\<close>

definition addConfigLocation ::
    "runtime \<Rightarrow> registry \<Rightarrow> jsstring \<Rightarrow> ConfigLocation \<Rightarrow> thrown + registry" where
  "addConfigLocation rt reg appKey configLocation =
     (case getAppConfig rt reg appKey of
        Undefined \<Rightarrow> Inr reg
      | Entry app \<Rightarrow>
          Inr (reg\<lparr>arrays :=
                 (arrays reg)[configs app := arrays reg ! configs app @ [configLocation]]\<rparr>)
      | builtin \<Rightarrow>
          Inl (ErrorObject (js ''TypeError'')
                 (js ''Cannot read properties of undefined (reading '' @ [cu (CHR 0x27)]
                    @ js ''push'' @ [cu (CHR 0x27)] @ js '')'')))"

text \<open>
  \<open>updateAppConfigs\<close>: \<open>app.configs = configs\<close> when the looked-up value is truthy. The
  argument is the caller's array object, given here by its reference; the entry refers
  to that object from then on, and no array is copied or changed. For the keys
  \<open>constructor\<close> and \<open>__proto__\<close> the assignment creates a property of a built-in object
  instead (\<open>WroteBuiltin\<close>); the table is not touched, and the model does not follow the
  process beyond that point.
\<close>

datatype update_result = Updated registry | WroteBuiltin property_value array_ref

definition updateAppConfigs :: "runtime \<Rightarrow> registry \<Rightarrow> jsstring \<Rightarrow> array_ref \<Rightarrow> update_result" where
  "updateAppConfigs rt reg appKey cs =
     (case getAppConfig rt reg appKey of
        Undefined \<Rightarrow> Updated reg
      | Entry app \<Rightarrow>
          Updated (reg\<lparr>APP_CONFIGS :=
                     AList.map_entry (toLowerCase rt appKey) (\<lambda>a. a\<lparr>configs := cs\<rparr>)
                       (APP_CONFIGS reg)\<rparr>)
      | builtin \<Rightarrow> WroteBuiltin builtin cs)"

text \<open>
  The same loop over an explicit object store, to follow which objects it writes. An
  address is an index into the store; the array \<open>appConfig.configs\<close> holds addresses.
  The object literal \<open>{...config, path: expandedPath}\<close> allocates a new object at the
  next free address; nothing is assigned to a field of \<open>config\<close>.
\<close>

fun findConfigs_loop_store ::
    "runtime \<Rightarrow> ConfigLocation list \<Rightarrow> nat list \<Rightarrow> nat list \<Rightarrow> ConfigLocation list \<times> nat list" where
  "findConfigs_loop_store rt store [] validConfigs = (store, validConfigs)"
| "findConfigs_loop_store rt store (a # rest) validConfigs =
     (case check_candidate rt (store ! a) (expandPath (homedir rt) (path (store ! a))) of
        Inl e \<Rightarrow> findConfigs_loop_store rt store rest validConfigs
      | Inr None \<Rightarrow> findConfigs_loop_store rt store rest validConfigs
      | Inr (Some v) \<Rightarrow> findConfigs_loop_store rt (store @ [v]) rest (validConfigs @ [length store]))"

section \<open>Config reader (config-reader.ts)\<close>

record ConfigContent =
  content_path :: jsstring
  content :: jsstring
  parsed :: "jsval option"
  content_format :: jsstring
  error :: "jsstring option"

text \<open>The \<open>switch\<close> on the format: which parser runs, if any.\<close>

fun parse_by_format :: "runtime \<Rightarrow> location_format \<Rightarrow> jsstring \<Rightarrow> (thrown + jsval) option" where
  "parse_by_format rt Json text = Some (JSON_parse rt text)"
| "parse_by_format rt Plist text = Some (plist_parse rt text)"
| "parse_by_format rt Yaml text = Some (yaml_load rt text)"
| "parse_by_format rt Text text = None"
| "parse_by_format rt DirectoryFormat text = None"

text \<open>
  The private \<open>readFile\<close>: a failing read is not caught here (\<open>Inl\<close>), a failing parse
  is.
\<close>

definition readFile :: "runtime \<Rightarrow> ConfigLocation \<Rightarrow> thrown + ConfigContent" where
  "readFile rt configLocation =
     (case fs_readFile rt (path configLocation) of
        Inl e \<Rightarrow> Inl (fs_throw e)
      | Inr text \<Rightarrow>
          (let result = \<lparr> content_path = path configLocation, content = text, parsed = None,
                           content_format = format_string (format configLocation), error = None \<rparr>
           in case parse_by_format rt (format configLocation) text of
                None \<Rightarrow> Inr result
              | Some (Inr v) \<Rightarrow> Inr (result\<lparr>parsed := Some v\<rparr>)
              | Some (Inl parseError) \<Rightarrow>
                  Inr (result\<lparr>error :=
                         Some (js ''Parse error: ''
                                 @ message_or parseError (js ''Unknown parsing error''))\<rparr>)))"

definition readDirectory :: "runtime \<Rightarrow> ConfigLocation \<Rightarrow> thrown + ConfigContent" where
  "readDirectory rt configLocation =
     (case fs_readdir rt (path configLocation) of
        Inr entries \<Rightarrow>
          (let fileList = sort_strings (filter (\<lambda>entry. \<not> startsWith entry (js ''.'')) entries)
           in Inr \<lparr> content_path = path configLocation,
                    content = js ''Directory contents:'' @ [cu (CHR 0x0A)]
                                @ join_str [cu (CHR 0x0A)] (map (\<lambda>file. js ''  '' @ file) fileList),
                    parsed = Some (JArr (map JStr fileList)),
                    content_format = js ''directory'',
                    error = None \<rparr>)
      | Inl e \<Rightarrow>
          Inr \<lparr> content_path = path configLocation, content = [], parsed = None,
                content_format = js ''directory'',
                error = Some (message_or (fs_throw e) (js ''Unknown error reading directory'')) \<rparr>)"

definition readConfig :: "runtime \<Rightarrow> ConfigLocation \<Rightarrow> thrown + ConfigContent" where
  "readConfig rt configLocation =
     (case (if type configLocation = Directory then readDirectory rt configLocation
            else readFile rt configLocation) of
        Inr result \<Rightarrow> Inr result
      | Inl err \<Rightarrow>
          Inr \<lparr> content_path = path configLocation, content = [], parsed = None,
                content_format = format_string (format configLocation),
                error = Some (message_or err (js ''Unknown error'')) \<rparr>)"



text \<open>The page icon U+1F4C4 of the header: a surrogate pair.\<close>

definition page_icon :: jsstring where
  "page_icon = [0xD83D, 0xDCC4]"

definition display_header :: "ConfigContent \<Rightarrow> jsstring" where
  "display_header configContent =
     page_icon @ js '' '' @ content_path configContent @ [cu (CHR 0x0A)]
       @ js ''Format: '' @ content_format configContent @ [cu (CHR 0x0A), cu (CHR 0x0A)]"

text \<open>The last branch: the raw text, cut after 50 lines.\<close>

definition first_lines :: "jsstring \<Rightarrow> jsstring" where
  "first_lines text =
     (let lines = split_str (cu (CHR 0x0A)) text in
      if length lines > 50
      then join_str [cu (CHR 0x0A)] (take 50 lines) @ [cu (CHR 0x0A), cu (CHR 0x0A)]
             @ js ''... (showing first 50 lines of '' @ show_nat (length lines)
             @ js '' total lines)''
      else text)"

definition formatConfigForDisplay :: "runtime \<Rightarrow> ConfigContent \<Rightarrow> jsstring" where
  "formatConfigForDisplay rt configContent =
     (if truthy_string (error configContent)
      then js ''Error reading '' @ content_path configContent @ js '': ''
             @ the (error configContent)
      else display_header configContent @
        (if content_format configContent = js ''directory'' then content configContent
         else if truthy_any (parsed configContent)
                 \<and> (content_format configContent = js ''json''
                      \<or> content_format configContent = js ''plist'')
         then JSON_stringify rt (the (parsed configContent))
         else first_lines (content configContent)))"

section \<open>Notions of the specification\<close>

text \<open>
  Two ASCII keys differ only in letter case: they have the same length and, position by
  position, the same code unit or the capital and the small form of one letter.
\<close>

definition same_letter :: "code_unit \<Rightarrow> code_unit \<Rightarrow> bool" where
  "same_letter a b \<longleftrightarrow>
     a = b
     \<or> (cu CHR ''A'' \<le> a \<and> a \<le> cu CHR ''Z'' \<and> b = a + 32)
     \<or> (cu CHR ''A'' \<le> b \<and> b \<le> cu CHR ''Z'' \<and> a = b + 32)"

definition differ_only_in_case :: "jsstring \<Rightarrow> jsstring \<Rightarrow> bool" where
  "differ_only_in_case k1 k2 \<longleftrightarrow> list_all2 same_letter k1 k2"

text \<open>
  A candidate location resolves: its expanded path can be accessed, its metadata can be
  read, and the kind found is the declared one.
\<close>

definition resolved_path :: "runtime \<Rightarrow> ConfigLocation \<Rightarrow> jsstring" where
  "resolved_path rt c = expandPath (homedir rt) (path c)"

definition candidate_resolves :: "runtime \<Rightarrow> ConfigLocation \<Rightarrow> bool" where
  "candidate_resolves rt c \<longleftrightarrow>
     fs_access rt (resolved_path rt c) = None
     \<and> (case fs_stat rt (resolved_path rt c) of
          Inl e \<Rightarrow> False
        | Inr st \<Rightarrow> (type c = File \<and> isFile st) \<or> (type c = Directory \<and> isDirectory st))"

definition resolved :: "runtime \<Rightarrow> ConfigLocation \<Rightarrow> ConfigLocation" where
  "resolved rt c = c\<lparr>path := resolved_path rt c\<rparr>"

text \<open>
  A registry is well formed when every entry refers to an array of the store; the
  references of a running process always do.
\<close>

definition well_formed :: "registry \<Rightarrow> bool" where
  "well_formed reg \<longleftrightarrow> list_all (\<lambda>entry. configs (snd entry) < length (arrays reg)) (APP_CONFIGS reg)"

text \<open>An entry name that starts with a dot.\<close>

definition starts_with_dot :: "jsstring \<Rightarrow> bool" where
  "starts_with_dot name \<longleftrightarrow> (case name of [] \<Rightarrow> False | c # rest \<Rightarrow> c = cu CHR ''.'')"

text \<open>
  A line contains the term case-insensitively: the lower-cased term is a contiguous piece
  of the lower-cased line, lower-casing being that of the runtime. For ASCII text this is
  to say that some piece of the line differs from the term only in letter case.
\<close>

definition contains_ignoring_case :: "runtime \<Rightarrow> jsstring \<Rightarrow> jsstring \<Rightarrow> bool" where
  "contains_ignoring_case rt line searchTerm \<longleftrightarrow>
     (\<exists>pre post. toLowerCase rt line = pre @ toLowerCase rt searchTerm @ post)"



section \<open>An example runtime\<close>

text \<open>
  A home directory with a few files and two directories, used to run the definitions on
  concrete inputs. The parsers are given on the documents that occur in it, and the case
  mapping on the letters that occur in it (\<open>U+00C9\<close> is the capital of \<open>U+00E9\<close>).
\<close>

definition ENOENT :: fs_error where
  "ENOENT = FsError (cu CHR ''E'') (js ''NOENT: no such file or directory'')"

definition notes_text :: jsstring where
  "notes_text =
     js ''alpha'' @ [cu (CHR 0x0A)] @ js ''beta'' @ [cu (CHR 0x0A)] @ js ''  Theme: dark  ''
       @ [cu (CHR 0x0A)] @ [0xA0] @ js ''Caf'' @ [0xE9] @ [0xA0]"

definition zero_text :: jsstring where
  "zero_text = replicate 60 (cu (CHR 0x0A)) @ js ''0''"

definition example_files :: "(jsstring \<times> jsstring) list" where
  "example_files =
     [ (js ''/home/u/.cursor/mcp.json'', js ''[1, 2]''),
       (js ''/home/u/.vscode/mcp.json'', js ''{ broken''),
       (js ''/home/u/.gemini/settings.json'', js '' null''),
       (js ''/home/u/zero.json'', zero_text),
       (js ''/home/u/broken.plist'', js ''<plist''),
       (js ''/home/u/flag.plist'', js ''<plist><false/></plist>''),
       (js ''/home/u/broken.yaml'', js ''a: [''),
       (js ''/home/u/notes.txt'', notes_text) ]"

definition example_directories :: "(jsstring \<times> jsstring list) list" where
  "example_directories =
     [ (js ''/home/u/.claude/'', [js ''a.json'', js ''.hidden'', js ''b.txt'']),
       (js ''/home/u/names/'', [[0xFF5E], js ''z'', [0xD83D, 0xDE00], js ''.git'']) ]"

definition example_runtime :: runtime where
  "example_runtime =
     \<lparr> homedir = js ''/home/u'',
       fs_access = (\<lambda>p. if map_of example_directories p \<noteq> None \<or> map_of example_files p \<noteq> None
                         then None else Some ENOENT),
       fs_stat = (\<lambda>p. if map_of example_directories p \<noteq> None
                       then Inr \<lparr>isFile = False, isDirectory = True\<rparr>
                       else if map_of example_files p \<noteq> None
                       then Inr \<lparr>isFile = True, isDirectory = False\<rparr>
                       else Inl ENOENT),
       fs_readFile = (\<lambda>p. case map_of example_files p of
                             Some text \<Rightarrow> Inr text
                           | None \<Rightarrow> Inl ENOENT),
       fs_readdir = (\<lambda>p. case map_of example_directories p of
                            Some entries \<Rightarrow> Inr entries
                          | None \<Rightarrow> Inl ENOENT),
       JSON_parse = (\<lambda>text. if text = js ''[1, 2]''
                             then Inr (JArr [JNum (Finite 1), JNum (Finite 2)])
                             else if text = js '' null'' then Inr JNull
                             else if text = zero_text then Inr (JNum (Finite 0))
                             else Inl (ErrorObject (js ''SyntaxError'')
                                         (js ''Unexpected end of JSON input''))),
       plist_parse = (\<lambda>text. if text = js ''<plist><false/></plist>'' then Inr (JBool False)
                              else Inl (ErrorObject (js ''Error'') (js ''malformed document''))),
       yaml_load = (\<lambda>text. Inl (ErrorObject (js ''YAMLException'')
                                     (js ''unexpected end of the stream''))),
       JSON_stringify = (\<lambda>v. if v = JNull then js ''null''
                              else if v = JBool False then js ''false''
                              else if v = JNum (Finite 0) then js ''0''
                              else js ''['' @ [cu (CHR 0x0A)] @ js ''  1,'' @ [cu (CHR 0x0A)]
                                     @ js ''  2'' @ [cu (CHR 0x0A)] @ js '']''),
       String_toLowerCase = map (\<lambda>c. if c = 0xC9 then 0xE9 else toLowerCase_unit c) \<rparr>"

definition file_location :: "string \<Rightarrow> location_format \<Rightarrow> ConfigLocation" where
  "file_location p f = \<lparr> path = js p, type = File, description = js ''Example'', format = f \<rparr>"

definition directory_location :: "string \<Rightarrow> ConfigLocation" where
  "directory_location p =
     \<lparr> path = js p, type = Directory, description = js ''Example'', format = DirectoryFormat \<rparr>"

text \<open>
  The built-in registry after a caller has created an empty array (reference 5), and that
  registry after the entry of \<open>cursor\<close> has been made to refer to it.
\<close>

definition caller_registry :: registry where
  "caller_registry = initial_registry\<lparr>arrays := arrays initial_registry @ [[]]\<rparr>"

definition cursor_cleared :: registry where
  "cursor_cleared =
     caller_registry\<lparr>APP_CONFIGS :=
       AList.update (js ''cursor'')
         \<lparr> displayName = js ''Cursor'', bundleId = None, configs = 5 \<rparr>
         (APP_CONFIGS caller_registry)\<rparr>"

text \<open>What reading the Gemini settings of the example gives: the parsed value is \<open>null\<close>.\<close>

definition gemini_content :: ConfigContent where
  "gemini_content =
     \<lparr> content_path = js ''/home/u/.gemini/settings.json'', content = js '' null'',
       parsed = Some JNull, content_format = js ''json'', error = None \<rparr>"

text \<open>A plain text of 60 lines, each line \<open>x\<close>.\<close>

definition sixty_lines :: ConfigContent where
  "sixty_lines =
     \<lparr> content_path = js ''/home/u/long.txt'',
       content = concat (replicate 59 (js ''x'' @ [cu (CHR 0x0A)])) @ js ''x'',
       parsed = None, content_format = js ''text'', error = None \<rparr>"

text \<open>
  That registry after the entry of \<open>vscode\<close> has been made to refer to the same array:
  the two applications share it.
\<close>

definition shared_registry :: registry where
  "shared_registry =
     cursor_cleared\<lparr>APP_CONFIGS :=
       AList.update (js ''vscode'')
         \<lparr> displayName = js ''Visual Studio Code'',
           bundleId = Some (js ''com.microsoft.VSCode''), configs = 5 \<rparr>
         (APP_CONFIGS cursor_cleared)\<rparr>"


text \<open>
  What reading \<open>flag.plist\<close> and \<open>zero.json\<close> of the example gives: the parsed values are
  \<open>false\<close> and \<open>0\<close>.
\<close>

definition flag_content :: ConfigContent where
  "flag_content =
     \<lparr> content_path = js ''/home/u/flag.plist'', content = js ''<plist><false/></plist>'',
       parsed = Some (JBool False), content_format = js ''plist'', error = None \<rparr>"

definition zero_content :: ConfigContent where
  "zero_content =
     \<lparr> content_path = js ''/home/u/zero.json'', content = zero_text,
       parsed = Some (JNum (Finite 0)), content_format = js ''json'', error = None \<rparr>"
section \<open>Properties of the registry\<close>

lemma toLowerCase_ascii: "is_ascii s \<Longrightarrow> toLowerCase rt s = map toLowerCase_unit s"
  by (simp add: toLowerCase_def)

lemma same_letter_toLowerCase: "same_letter a b \<Longrightarrow> toLowerCase_unit a = toLowerCase_unit b"
  by (auto simp: same_letter_def toLowerCase_unit_def)

lemma differ_only_in_case_toLowerCase:
  "differ_only_in_case k1 k2 \<Longrightarrow> map toLowerCase_unit k1 = map toLowerCase_unit k2"
  unfolding differ_only_in_case_def
  by (induction k1 k2 rule: list_all2_induct) (auto dest: same_letter_toLowerCase)

lemma getAppConfig_case_insensitive:
  "differ_only_in_case k1 k2 \<Longrightarrow> is_ascii k1 \<Longrightarrow> is_ascii k2 \<Longrightarrow>
   getAppConfig rt reg k1 = getAppConfig rt reg k2"
  by (simp add: getAppConfig_def toLowerCase_ascii differ_only_in_case_toLowerCase)

lemma getSubstitution_plain:
  "cu CHR ''$'' \<notin> set replacement \<Longrightarrow>
   getSubstitution matched before after replacement = replacement"
  by (induction matched before after replacement rule: getSubstitution.induct) auto

lemma expandPath_tilde:
  "cu CHR ''$'' \<notin> set home \<Longrightarrow> expandPath home (cu CHR ''~'' # rest) = home @ rest"
  using getSubstitution_plain [of home] by simp

lemma expandPath_other: "c \<noteq> cu CHR ''~'' \<Longrightarrow> expandPath home (c # rest) = c # rest"
  by simp

lemma findConfigs_loop_filter:
  "findConfigs_loop rt cs valid = valid @ map (resolved rt) (filter (candidate_resolves rt) cs)"
proof (induction cs arbitrary: valid)
  case Nil
  show ?case by simp
next
  case (Cons c cs)
  show ?case
    by (simp add: Cons.IH check_candidate_def candidate_resolves_def resolved_def resolved_path_def
         split: option.splits sum.splits)
qed

lemma findConfigsForApp_entry:
  "getAppConfig rt reg appKey = Entry app \<Longrightarrow>
   findConfigsForApp rt reg appKey
     = Inr (map (resolved rt) (filter (candidate_resolves rt) (arrays reg ! configs app)))"
  by (simp add: findConfigsForApp_def findConfigs_loop_filter)

lemma findConfigsForApp_undefined:
  "getAppConfig rt reg appKey = Undefined \<Longrightarrow> findConfigsForApp rt reg appKey = Inr []"
  by (simp add: findConfigsForApp_def)

lemma findConfigsForApp_example:
  "findConfigsForApp example_runtime initial_registry (js ''Cursor'')
     = Inr [file_location ''/home/u/.cursor/mcp.json'' Json
              \<lparr>description := js ''Cursor MCP configuration''\<rparr>]
   \<and> findConfigsForApp example_runtime initial_registry (js ''claude CODE'')
       = Inr [directory_location ''/home/u/.claude/''
                \<lparr>description := js ''Claude Code configuration directory''\<rparr>]
   \<and> findConfigsForApp example_runtime initial_registry (js ''claude desktop'') = Inr []
   \<and> findConfigsForApp example_runtime initial_registry (js ''no such app'') = Inr []"
  by (simp add: findConfigsForApp_def getAppConfig_def initial_registry_def toLowerCase_def
        is_ascii_def toLowerCase_unit_def check_candidate_def example_runtime_def
        example_files_def example_directories_def file_location_def directory_location_def
        cursor_location_def claude_code_directory_def claude_desktop_config_def)

lemma getAppConfig_Entry_iff:
  "getAppConfig rt reg k = Entry app \<longleftrightarrow> map_of (APP_CONFIGS reg) (toLowerCase rt k) = Some app"
  by (auto simp: getAppConfig_def Let_def split: option.splits)

lemma map_fst_map_entry: "map fst (AList.map_entry k f xs) = map fst xs"
  by (induction xs) auto

lemma getAppConfig_map_entry:
  "getAppConfig rt (reg\<lparr>APP_CONFIGS := AList.map_entry k f (APP_CONFIGS reg)\<rparr>) k' =
     (if toLowerCase rt k' = k
      then (case getAppConfig rt reg k' of Entry a \<Rightarrow> Entry (f a) | v \<Rightarrow> v)
      else getAppConfig rt reg k')"
  by (simp add: getAppConfig_def Let_def map_of_map_entry split: option.splits)

lemma getAppConfig_arrays [simp]:
  "getAppConfig rt (reg\<lparr>arrays := xs\<rparr>) k = getAppConfig rt reg k"
  by (simp add: getAppConfig_def)

lemma addConfigLocation_entry:
  assumes "getAppConfig rt reg appKey = Entry app"
  shows "\<exists>reg'. addConfigLocation rt reg appKey loc = Inr reg'
           \<and> APP_CONFIGS reg' = APP_CONFIGS reg
           \<and> length (arrays reg') = length (arrays reg)
           \<and> (configs app < length (arrays reg) \<longrightarrow>
                arrays reg' ! configs app = arrays reg ! configs app @ [loc])
           \<and> (\<forall>a. a \<noteq> configs app \<longrightarrow> arrays reg' ! a = arrays reg ! a)"
  using assms by (simp add: addConfigLocation_def)

lemma updateAppConfigs_entry:
  assumes "getAppConfig rt reg appKey = Entry app"
  shows "\<exists>reg'. updateAppConfigs rt reg appKey cs = Updated reg'
           \<and> arrays reg' = arrays reg
           \<and> getAppConfig rt reg' appKey = Entry (app\<lparr>configs := cs\<rparr>)
           \<and> getAvailableApps reg' = getAvailableApps reg
           \<and> (\<forall>k. toLowerCase rt k \<noteq> toLowerCase rt appKey \<longrightarrow>
                  getAppConfig rt reg' k = getAppConfig rt reg k)"
  using assms
  by (simp add: updateAppConfigs_def getAppConfig_map_entry getAvailableApps_def map_fst_map_entry)

lemma mutations_undefined:
  assumes "getAppConfig rt reg appKey = Undefined"
  shows "addConfigLocation rt reg appKey loc = Inr reg
       \<and> updateAppConfigs rt reg appKey cs = Updated reg"
  using assms by (simp add: addConfigLocation_def updateAppConfigs_def)

text \<open>
  C9. The claim: \<open>getAppConfig\<close> looks the key up without regard to letter case, gives the
  "not found" signal for an unknown key, and never throws. The lookup is indeed
  case-insensitive (\<open>getAppConfig_case_insensitive\<close>) and total. But the key
  \<open>constructor\<close>, which is not an application key, does not give \<open>undefined\<close>: the table
  is a plain object, and the access returns the function \<open>Object\<close> inherited from
  \<open>Object.prototype\<close>.
\<close>

theorem getAppConfig_constructor:
  "js ''constructor'' \<notin> set (getAvailableApps initial_registry)
   \<and> getAppConfig rt initial_registry (js ''constructor'') = ObjectConstructor
   \<and> getAppConfig rt initial_registry (js ''constructor'') \<noteq> Undefined"
  by (simp add: getAvailableApps_def initial_registry_def getAppConfig_def
        toLowerCase_def is_ascii_def toLowerCase_unit_def)

text \<open>
  C1. The claim: \<open>findConfigsForApp\<close> returns exactly the declared candidates that
  resolve, with their expanded paths, in declaration order; a file-system error skips one
  candidate only; an unknown key gives the empty sequence. For a registered key this holds
  (\<open>findConfigsForApp_entry\<close>), and so it does for a key whose lookup is \<open>undefined\<close>
  (\<open>findConfigsForApp_undefined\<close>). For the unknown key \<open>constructor\<close> the lookup
  returns the function \<open>Object\<close>, which is truthy and has no \<open>configs\<close>; the loop header
  raises a \<open>TypeError\<close> and the promise is rejected instead of resolving to \<open>[]\<close>.
\<close>

theorem findConfigsForApp_constructor:
  "js ''constructor'' \<notin> set (getAvailableApps initial_registry)
   \<and> findConfigsForApp rt initial_registry (js ''constructor'')
       = Inl (ErrorObject (js ''TypeError'') (js ''appConfig.configs is not iterable''))
   \<and> findConfigsForApp rt initial_registry (js ''constructor'') \<noteq> Inr []"
  by (simp add: getAvailableApps_def initial_registry_def findConfigsForApp_def getAppConfig_def
        toLowerCase_def is_ascii_def toLowerCase_unit_def)

text \<open>
  C3, as stated: the registry changes only through the appending \<open>addConfigLocation\<close>,
  and no operation removes or replaces locations of an application. This fails:
  \<open>updateAppConfigs\<close> replaces the whole list, here by an empty array of the caller.
\<close>

theorem updateAppConfigs_counterexample:
  "getAppConfig example_runtime caller_registry (js ''cursor'')
     = Entry \<lparr> displayName = js ''Cursor'', bundleId = None, configs = 4 \<rparr>
   \<and> configs_property caller_registry
         (getAppConfig example_runtime caller_registry (js ''cursor'')) = Some [cursor_location]
   \<and> updateAppConfigs example_runtime caller_registry (js ''cursor'') 5 = Updated cursor_cleared
   \<and> configs_property cursor_cleared
         (getAppConfig example_runtime cursor_cleared (js ''cursor'')) = Some []
   \<and> getAvailableApps cursor_cleared = getAvailableApps caller_registry"
  by (simp add: initial_registry_def caller_registry_def cursor_cleared_def updateAppConfigs_def
        getAppConfig_def getAvailableApps_def toLowerCase_def is_ascii_def toLowerCase_unit_def)

text \<open>
  C3, amended: the registry has two mutating operations. For a key that is looked up as
  \<open>undefined\<close> both leave the registry as it is. For a registered key,
  \<open>addConfigLocation\<close> appends the one location to the array the entry refers to, in
  place: the table and every other array stay as they are, so the list of another
  application changes exactly when it is that same array. \<open>updateAppConfigs\<close> makes the
  entry refer to the given array, which replaces the application's list; it changes no
  array, keeps the application keys and leaves every other entry as it is.
\<close>

theorem registry_mutations:
  "(getAppConfig rt reg appKey = Undefined \<longrightarrow>
      addConfigLocation rt reg appKey loc = Inr reg
      \<and> updateAppConfigs rt reg appKey cs = Updated reg)
   \<and> (\<forall>app. getAppConfig rt reg appKey = Entry app \<longrightarrow>
        (\<exists>reg'. addConfigLocation rt reg appKey loc = Inr reg'
           \<and> APP_CONFIGS reg' = APP_CONFIGS reg
           \<and> length (arrays reg') = length (arrays reg)
           \<and> (configs app < length (arrays reg) \<longrightarrow>
                arrays reg' ! configs app = arrays reg ! configs app @ [loc])
           \<and> (\<forall>a. a \<noteq> configs app \<longrightarrow> arrays reg' ! a = arrays reg ! a))
        \<and> (\<exists>reg'. updateAppConfigs rt reg appKey cs = Updated reg'
           \<and> arrays reg' = arrays reg
           \<and> getAppConfig rt reg' appKey = Entry (app\<lparr>configs := cs\<rparr>)
           \<and> getAvailableApps reg' = getAvailableApps reg
           \<and> (\<forall>k. toLowerCase rt k \<noteq> toLowerCase rt appKey \<longrightarrow>
                  getAppConfig rt reg' k = getAppConfig rt reg k)))"
  using mutations_undefined [of rt reg appKey loc cs]
    addConfigLocation_entry [of rt reg appKey _ loc]
    updateAppConfigs_entry [of rt reg appKey _ cs]
  by blast

theorem registry_mutations_witness:
  "getAppConfig example_runtime initial_registry (js ''nope'') = Undefined
   \<and> addConfigLocation example_runtime initial_registry (js ''nope'') vscode_mcp
       = Inr initial_registry
   \<and> updateAppConfigs example_runtime initial_registry (js ''nope'') 0 = Updated initial_registry
   \<and> getAppConfig example_runtime initial_registry (js ''Cursor'')
       = Entry \<lparr> displayName = js ''Cursor'', bundleId = None, configs = 4 \<rparr>
   \<and> (\<exists>reg'. addConfigLocation example_runtime initial_registry (js ''Cursor'') vscode_mcp = Inr reg'
         \<and> APP_CONFIGS reg' = APP_CONFIGS initial_registry
         \<and> arrays reg' ! 4 = [cursor_location, vscode_mcp]
         \<and> arrays reg' ! 3 = [vscode_mcp])
   \<and> (\<exists>reg'. updateAppConfigs example_runtime initial_registry (js ''Cursor'') 0 = Updated reg'
         \<and> arrays reg' = arrays initial_registry
         \<and> getAppConfig example_runtime reg' (js ''Cursor'')
             = Entry \<lparr> displayName = js ''Cursor'', bundleId = None, configs = 0 \<rparr>)
   \<and> updateAppConfigs example_runtime cursor_cleared (js ''vscode'') 5 = Updated shared_registry
   \<and> addConfigLocation example_runtime shared_registry (js ''cursor'') gemini_settings
       = Inr (shared_registry\<lparr>arrays := (arrays shared_registry)[5 := [gemini_settings]]\<rparr>)
   \<and> configs_property (shared_registry\<lparr>arrays := (arrays shared_registry)[5 := [gemini_settings]]\<rparr>)
         (getAppConfig example_runtime shared_registry (js ''vscode'')) = Some [gemini_settings]"
proof -
  have u: "getAppConfig example_runtime initial_registry (js ''nope'') = Undefined"
    by (simp add: initial_registry_def getAppConfig_def toLowerCase_def is_ascii_def
          toLowerCase_unit_def)
  have e: "getAppConfig example_runtime initial_registry (js ''Cursor'')
             = Entry \<lparr> displayName = js ''Cursor'', bundleId = None, configs = 4 \<rparr>"
    by (simp add: initial_registry_def getAppConfig_def toLowerCase_def is_ascii_def
          toLowerCase_unit_def)
  have arr: "arrays initial_registry ! 4 = [cursor_location]"
    "arrays initial_registry ! 3 = [vscode_mcp]" "length (arrays initial_registry) = 5"
    by (simp_all add: initial_registry_def)
  note m1 = registry_mutations [of example_runtime initial_registry "js ''nope''" vscode_mcp 0]
  note m2 = registry_mutations [of example_runtime initial_registry "js ''Cursor''" vscode_mcp 0]
  from m1 u have n1: "addConfigLocation example_runtime initial_registry (js ''nope'') vscode_mcp
       = Inr initial_registry"
    and n2: "updateAppConfigs example_runtime initial_registry (js ''nope'') 0
       = Updated initial_registry"
    by blast+
  from m2 e obtain reg' where a: "addConfigLocation example_runtime initial_registry (js ''Cursor'') vscode_mcp = Inr reg'"
    and a1: "APP_CONFIGS reg' = APP_CONFIGS initial_registry"
    and a2: "4 < length (arrays initial_registry) \<longrightarrow>
                arrays reg' ! 4 = arrays initial_registry ! 4 @ [vscode_mcp]"
    and a3: "\<forall>a. a \<noteq> 4 \<longrightarrow> arrays reg' ! a = arrays initial_registry ! a"
    by fastforce
  from a2 a3 arr have "arrays reg' ! 4 = [cursor_location, vscode_mcp]" "arrays reg' ! 3 = [vscode_mcp]"
    by simp_all
  with a a1 have add: "\<exists>reg'. addConfigLocation example_runtime initial_registry (js ''Cursor'') vscode_mcp = Inr reg'
         \<and> APP_CONFIGS reg' = APP_CONFIGS initial_registry
         \<and> arrays reg' ! 4 = [cursor_location, vscode_mcp]
         \<and> arrays reg' ! 3 = [vscode_mcp]"
    by blast
  from m2 e have upd: "\<exists>reg'. updateAppConfigs example_runtime initial_registry (js ''Cursor'') 0 = Updated reg'
         \<and> arrays reg' = arrays initial_registry
         \<and> getAppConfig example_runtime reg' (js ''Cursor'')
             = Entry \<lparr> displayName = js ''Cursor'', bundleId = None, configs = 0 \<rparr>"
    by fastforce
  have s1: "updateAppConfigs example_runtime cursor_cleared (js ''vscode'') 5 = Updated shared_registry"
    by (simp add: initial_registry_def caller_registry_def cursor_cleared_def shared_registry_def
          updateAppConfigs_def getAppConfig_def toLowerCase_def is_ascii_def toLowerCase_unit_def)
  have s2: "addConfigLocation example_runtime shared_registry (js ''cursor'') gemini_settings
       = Inr (shared_registry\<lparr>arrays := (arrays shared_registry)[5 := [gemini_settings]]\<rparr>)"
    by (simp add: initial_registry_def caller_registry_def cursor_cleared_def shared_registry_def
          addConfigLocation_def getAppConfig_def toLowerCase_def is_ascii_def toLowerCase_unit_def)
  have s3: "configs_property (shared_registry\<lparr>arrays := (arrays shared_registry)[5 := [gemini_settings]]\<rparr>)
         (getAppConfig example_runtime shared_registry (js ''vscode'')) = Some [gemini_settings]"
    by (simp add: initial_registry_def caller_registry_def cursor_cleared_def shared_registry_def
          getAppConfig_def toLowerCase_def is_ascii_def toLowerCase_unit_def)
  show ?thesis
    using u n1 n2 e add upd s1 s2 s3 by (intro conjI)
qed

lemma findConfigs_loop_store_eq:
  "\<forall>a \<in> set addrs. a < length store \<Longrightarrow>
   findConfigs_loop_store rt store addrs valid =
     (store @ map (resolved rt) (filter (candidate_resolves rt) (map ((!) store) addrs)),
      valid @ [length store ..< length store
                 + length (filter (candidate_resolves rt) (map ((!) store) addrs))])"
proof (induction addrs arbitrary: store valid)
  case Nil
  show ?case by simp
next
  case (Cons a addrs)
  have a: "a < length store" and rest: "\<forall>b \<in> set addrs. b < length store"
    using Cons.prems by simp_all
  have same: "map ((!) (store @ [v])) addrs = map ((!) store) addrs" for v
    using rest by (simp add: nth_append)
  have rest': "\<forall>b \<in> set addrs. b < length (store @ [v])" for v
    using rest by auto
  show ?case
  proof (cases "candidate_resolves rt (store ! a)")
    case True
    then have chk: "check_candidate rt (store ! a) (expandPath (homedir rt) (path (store ! a)))
                      = Inr (Some (resolved rt (store ! a)))"
      by (auto simp: check_candidate_def candidate_resolves_def resolved_def resolved_path_def
            split: option.splits sum.splits)
    show ?thesis
      using True by (simp add: chk Cons.IH [OF rest'] same upt_conv_Cons del: upt_Suc)
  next
    case False
    then have chk: "check_candidate rt (store ! a) (expandPath (homedir rt) (path (store ! a)))
                      \<noteq> Inr (Some v)" for v
      by (auto simp: check_candidate_def candidate_resolves_def resolved_def resolved_path_def
            split: option.splits sum.splits)
    show ?thesis
      using False chk by (simp add: Cons.IH [OF rest] split: sum.splits option.splits)
  qed
qed


text \<open>
  C4, as stated: resolution rewrites the path of the stored location in place. This
  fails: after resolving the stored location at address 0, that object still has the
  template path; the expanded path is in a new object at address 1, which is what the
  result refers to.
\<close>

theorem findConfigs_store_counterexample:
  "findConfigs_loop_store example_runtime [cursor_location] [0] []
     = ([cursor_location, cursor_location\<lparr>path := js ''/home/u/.cursor/mcp.json''\<rparr>], [1])
   \<and> path (fst (findConfigs_loop_store example_runtime [cursor_location] [0] []) ! 0)
       = js ''~/.cursor/mcp.json''
   \<and> resolved_path example_runtime cursor_location = js ''/home/u/.cursor/mcp.json''"
  by (simp add: check_candidate_def example_runtime_def example_files_def example_directories_def cursor_location_def
        resolved_path_def)

lemma map_nth_append_upt: "map ((!) (xs @ ys)) [length xs ..< length xs + length ys] = ys"
  by (rule nth_equalityI) (simp_all add: nth_append)

text \<open>
  C4, amended: resolution leaves every existing location object as it is, the stored
  ones included, so a stored path keeps its template. Each kept candidate is returned as a
  new object, a copy of the stored one with the expanded path in the field \<open>path\<close>; the
  objects the result refers to are exactly those the loop on values computes.
\<close>

theorem findConfigs_store_frame:
  assumes "\<forall>a \<in> set addrs. a < length store"
    and "findConfigs_loop_store rt store addrs [] = (store', result)"
  shows "(\<forall>a < length store. store' ! a = store ! a)
       \<and> (\<forall>r \<in> set result. length store \<le> r \<and> r < length store')
       \<and> map ((!) store') result
           = map (resolved rt) (filter (candidate_resolves rt) (map ((!) store) addrs))
       \<and> map ((!) store') result = findConfigs_loop rt (map ((!) store) addrs) []"
proof -
  define new where "new = map (resolved rt) (filter (candidate_resolves rt) (map ((!) store) addrs))"
  have len: "length new = length (filter (candidate_resolves rt) (map ((!) store) addrs))"
    by (simp add: new_def)
  have "findConfigs_loop_store rt store addrs []
          = (store @ new, [] @ [length store ..< length store + length new])"
    using findConfigs_loop_store_eq [OF assms(1), of rt "[]"] by (simp only: new_def length_map)
  then have "(store', result) = (store @ new, [length store ..< length store + length new])"
    unfolding assms(2) by simp
  then have s: "store' = store @ new"
    and r: "result = [length store ..< length store + length new]"
    by simp_all
  have old: "\<forall>a < length store. store' ! a = store ! a"
    unfolding s by (simp add: nth_append)
  have fresh: "\<forall>r \<in> set result. length store \<le> r \<and> r < length store'"
    unfolding s r by simp
  have objs: "map ((!) store') result = new"
    unfolding s r by (rule map_nth_append_upt)
  have loop: "findConfigs_loop rt (map ((!) store) addrs) [] = new"
    unfolding new_def by (simp add: findConfigs_loop_filter)
  show ?thesis
    unfolding objs loop using old fresh by (simp add: new_def)
qed

theorem findConfigs_store_frame_witness:
  "0 < length [cursor_location]
   \<and> findConfigs_loop_store example_runtime [cursor_location] [0] []
       = ([cursor_location, cursor_location\<lparr>path := js ''/home/u/.cursor/mcp.json''\<rparr>], [1])
   \<and> [cursor_location, cursor_location\<lparr>path := js ''/home/u/.cursor/mcp.json''\<rparr>] ! 0
       = cursor_location
   \<and> map ((!) [cursor_location, cursor_location\<lparr>path := js ''/home/u/.cursor/mcp.json''\<rparr>]) [1]
       = findConfigs_loop example_runtime [cursor_location] []"
proof -
  have a: "\<forall>a \<in> set [0::nat]. a < length [cursor_location]"
    by simp
  have b: "findConfigs_loop_store example_runtime [cursor_location] [0] []
       = ([cursor_location, cursor_location\<lparr>path := js ''/home/u/.cursor/mcp.json''\<rparr>], [1])"
    by (simp add: check_candidate_def example_runtime_def example_files_def example_directories_def cursor_location_def)
  note f = findConfigs_store_frame [OF a b]
  from f have old: "\<forall>a < length [cursor_location].
      [cursor_location, cursor_location\<lparr>path := js ''/home/u/.cursor/mcp.json''\<rparr>] ! a
        = [cursor_location] ! a"
    by (rule conjunct1)
  from f have loop:
    "map ((!) [cursor_location, cursor_location\<lparr>path := js ''/home/u/.cursor/mcp.json''\<rparr>]) [1]
       = findConfigs_loop example_runtime (map ((!) [cursor_location]) [0]) []"
    by (elim conjE)
  have zero: "map ((!) [cursor_location]) [0] = [cursor_location]"
    by simp
  have "[cursor_location, cursor_location\<lparr>path := js ''/home/u/.cursor/mcp.json''\<rparr>] ! 0
       = [cursor_location] ! 0"
    using old by (simp only: length_Cons list.size lessI One_nat_def)
  then have first: "[cursor_location, cursor_location\<lparr>path := js ''/home/u/.cursor/mcp.json''\<rparr>] ! 0
       = cursor_location"
    by (simp only: nth_Cons_0)
  have "0 < length [cursor_location]"
    by simp
  then show ?thesis
    using b first loop unfolding zero by (intro conjI)
qed

section \<open>Properties of the string methods\<close>



lemma toLowerCase_unit_same_letter:
  "toLowerCase_unit a = toLowerCase_unit b \<Longrightarrow> same_letter a b"
  by (auto simp: same_letter_def toLowerCase_unit_def split: if_splits)

lemma toLowerCase_eq_differ:
  "map toLowerCase_unit u = map toLowerCase_unit t \<Longrightarrow> differ_only_in_case u t"
proof (induction u arbitrary: t)
  case Nil
  then show ?case by (simp add: differ_only_in_case_def)
next
  case (Cons a u)
  then obtain b t' where t: "t = b # t'" and ab: "toLowerCase_unit a = toLowerCase_unit b"
    and rest: "map toLowerCase_unit u = map toLowerCase_unit t'"
    by (cases t) auto
  from Cons.IH [OF rest] toLowerCase_unit_same_letter [OF ab] show ?case
    by (simp add: t differ_only_in_case_def)
qed

lemma differ_only_in_case_iff:
  "differ_only_in_case u t \<longleftrightarrow> map toLowerCase_unit u = map toLowerCase_unit t"
  using toLowerCase_eq_differ differ_only_in_case_toLowerCase by blast


lemma contains_ignoring_case_ascii:
  assumes "is_ascii line" and "is_ascii t"
  shows "contains_ignoring_case rt line t \<longleftrightarrow>
           (\<exists>pre piece post. line = pre @ piece @ post \<and> differ_only_in_case piece t)"
proof
  assume "contains_ignoring_case rt line t"
  then obtain pre post
    where eq: "map toLowerCase_unit line = pre @ map toLowerCase_unit t @ post"
    using assms by (auto simp: contains_ignoring_case_def toLowerCase_ascii)
  define n where "n = length pre"
  define m where "m = length t"
  have "line = take n line @ drop n line"
    by simp
  also have "drop n line = take m (drop n line) @ drop m (drop n line)"
    by (simp only: append_take_drop_id)
  finally have split: "line = take n line @ take m (drop n line) @ drop m (drop n line)" .
  have "map toLowerCase_unit (take m (drop n line))
          = take m (drop n (map toLowerCase_unit line))"
    by (simp add: take_map drop_map)
  also have "\<dots> = map toLowerCase_unit t"
    unfolding eq by (simp add: n_def m_def)
  finally have "differ_only_in_case (take m (drop n line)) t"
    by (rule toLowerCase_eq_differ)
  with split show "\<exists>pre piece post. line = pre @ piece @ post \<and> differ_only_in_case piece t"
    by blast
next
  assume "\<exists>pre piece post. line = pre @ piece @ post \<and> differ_only_in_case piece t"
  then obtain pre piece post where l: "line = pre @ piece @ post"
    and p: "map toLowerCase_unit piece = map toLowerCase_unit t"
    unfolding differ_only_in_case_iff by blast
  have "map toLowerCase_unit line
          = map toLowerCase_unit pre @ map toLowerCase_unit t @ map toLowerCase_unit post"
    unfolding l p [symmetric] by simp
  then show "contains_ignoring_case rt line t"
    using assms unfolding contains_ignoring_case_def toLowerCase_ascii [OF assms(1)]
      toLowerCase_ascii [OF assms(2)] by blast
qed

lemma split_from_no_sep: "sep \<notin> set l \<Longrightarrow> split_from sep piece l = [piece @ l]"
  by (induction l arbitrary: piece) auto

lemma split_from_append:
  "sep \<notin> set l \<Longrightarrow> split_from sep piece (l @ sep # rest) = (piece @ l) # split_from sep [] rest"
  by (induction l arbitrary: piece) auto

lemma split_join:
  "ls \<noteq> [] \<Longrightarrow> \<forall>l \<in> set ls. sep \<notin> set l \<Longrightarrow> split_str sep (join_str [sep] ls) = ls"
proof (induction "[sep]" ls rule: join_str.induct)
  case 1
  then show ?case by simp
next
  case (2 x)
  then show ?case by (simp add: split_str_def split_from_no_sep)
next
  case (3 x y ys)
  then show ?case by (simp add: split_str_def split_from_append)
qed

lemma split_from_pieces:
  "sep \<notin> set piece \<Longrightarrow> l \<in> set (split_from sep piece s) \<Longrightarrow> sep \<notin> set l"
proof (induction s arbitrary: piece)
  case Nil
  then show ?case by simp
next
  case (Cons c s)
  show ?case
  proof (cases "c = sep")
    case True
    with Cons.prems have "l = piece \<or> l \<in> set (split_from sep [] s)"
      by simp
    then show ?thesis
      using Cons.prems(1) Cons.IH [of "[]"] by auto
  next
    case False
    with Cons.prems have "l \<in> set (split_from sep (piece @ [c]) s)"
      by simp
    moreover have "sep \<notin> set (piece @ [c])"
      using False Cons.prems(1) by simp
    ultimately show ?thesis
      by (rule Cons.IH [rotated])
  qed
qed

lemma split_str_pieces: "\<forall>l \<in> set (split_str sep s). sep \<notin> set l"
  using split_from_pieces [of sep "[]" _ s] by (simp add: split_str_def)

lemma split_join_take:
  assumes "0 < n" and "n \<le> length (split_str sep s)"
  shows "split_str sep (join_str [sep] (take n (split_str sep s))) = take n (split_str sep s)"
proof (rule split_join)
  show "take n (split_str sep s) \<noteq> []"
    using assms by auto
  show "\<forall>l \<in> set (take n (split_str sep s)). sep \<notin> set l"
    using split_str_pieces [of sep s] by (meson in_set_takeD)
qed

section \<open>Properties of the reader\<close>

lemma fs_message_nonempty: "fs_message e \<noteq> []"
  by (cases e) simp

lemma readConfig_total: "\<exists>cc. readConfig rt loc = Inr cc"
  by (simp add: readConfig_def split: sum.splits)

lemma readFile_cases:
  "readFile rt loc =
     (case fs_readFile rt (path loc) of
        Inl e \<Rightarrow> Inl (ErrorObject (js ''Error'') (fs_message e))
      | Inr raw \<Rightarrow>
          Inr \<lparr> content_path = path loc, content = raw,
                parsed = (case parse_by_format rt (format loc) raw of
                            Some (Inr v) \<Rightarrow> Some v | _ \<Rightarrow> None),
                content_format = format_string (format loc),
                error = (case parse_by_format rt (format loc) raw of
                           Some (Inl e) \<Rightarrow>
                             Some (js ''Parse error: '' @ message_or e (js ''Unknown parsing error''))
                         | _ \<Rightarrow> None) \<rparr>)"
  by (simp add: readFile_def fs_throw_def split: sum.splits option.splits)

lemma readConfig_error_nonempty:
  assumes "readConfig rt loc = Inr cc" and "error cc = Some e"
  shows "e \<noteq> []"
  using assms
  by (auto simp: readConfig_def readFile_cases readDirectory_def fs_throw_def fs_message_nonempty
        Let_def split: sum.splits option.splits if_splits)




lemma startsWith_dot: "startsWith name (js ''.'') \<longleftrightarrow> starts_with_dot name"
  by (cases name) (simp_all add: starts_with_dot_def)

lemma first_lines_short:
  "length (split_str (cu (CHR 0x0A)) raw) \<le> 50 \<Longrightarrow> first_lines raw = raw"
  by (simp add: first_lines_def Let_def)

lemma first_lines_long:
  "50 < length (split_str (cu (CHR 0x0A)) raw) \<Longrightarrow>
   first_lines raw =
     join_str [cu (CHR 0x0A)] (take 50 (split_str (cu (CHR 0x0A)) raw))
       @ [cu (CHR 0x0A), cu (CHR 0x0A)]
       @ js ''... (showing first 50 lines of '' @ show_nat (length (split_str (cu (CHR 0x0A)) raw))
       @ js '' total lines)''"
  by (simp add: first_lines_def Let_def)

lemma formatConfigForDisplay_raw_branch:
  assumes "\<not> truthy_string (error cc)" and "content_format cc \<noteq> js ''directory''"
    and "\<not> (truthy_any (parsed cc)
            \<and> (content_format cc = js ''json'' \<or> content_format cc = js ''plist''))"
  shows "formatConfigForDisplay rt cc = display_header cc @ first_lines (content cc)"
  using assms by (auto simp: formatConfigForDisplay_def)

lemma sixty_lines_split: "split_str (cu (CHR 0x0A)) (content sixty_lines) = replicate 60 (js ''x'')"
  by code_simp

lemma sixty_lines_joined:
  "join_str [cu (CHR 0x0A)] (take 50 (replicate 60 (js ''x'')))
    = concat (replicate 49 (js ''x'' @ [cu (CHR 0x0A)])) @ js ''x''"
  by code_simp

lemma show_nat_sixty: "show_nat 60 = js ''60''"
  by code_simp

text \<open>
  C2. For a file-type location: when the parser of the location's format (\<open>JSON.parse\<close>
  for \<open>json\<close>, \<open>plist.parse\<close> for \<open>plist\<close>, \<open>yaml.load\<close> for \<open>yaml\<close>) fails on the text
  read, \<open>readConfig\<close> returns the raw text as content together with the error
  \<open>Parse error: \<dots>\<close>; when reading the file fails, it returns the empty content and
  the message of the failure. In every case \<open>readConfig\<close> returns a result (it is never
  \<open>Inl\<close>, a rejection), and an error it reports is a non-empty string.
\<close>

theorem readConfig_failures:
  assumes "type loc = File"
  shows "(\<forall>raw e. fs_readFile rt (path loc) = Inr raw \<and> format loc = Json
             \<and> JSON_parse rt raw = Inl e \<longrightarrow>
           readConfig rt loc =
             Inr \<lparr> content_path = path loc, content = raw, parsed = None,
                   content_format = js ''json'',
                   error = Some (js ''Parse error: ''
                                   @ message_or e (js ''Unknown parsing error'')) \<rparr>)
       \<and> (\<forall>raw e. fs_readFile rt (path loc) = Inr raw \<and> format loc = Plist
             \<and> plist_parse rt raw = Inl e \<longrightarrow>
           readConfig rt loc =
             Inr \<lparr> content_path = path loc, content = raw, parsed = None,
                   content_format = js ''plist'',
                   error = Some (js ''Parse error: ''
                                   @ message_or e (js ''Unknown parsing error'')) \<rparr>)
       \<and> (\<forall>raw e. fs_readFile rt (path loc) = Inr raw \<and> format loc = Yaml
             \<and> yaml_load rt raw = Inl e \<longrightarrow>
           readConfig rt loc =
             Inr \<lparr> content_path = path loc, content = raw, parsed = None,
                   content_format = js ''yaml'',
                   error = Some (js ''Parse error: ''
                                   @ message_or e (js ''Unknown parsing error'')) \<rparr>)
       \<and> (\<forall>e. fs_readFile rt (path loc) = Inl e \<longrightarrow>
           readConfig rt loc =
             Inr \<lparr> content_path = path loc, content = [], parsed = None,
                   content_format = format_string (format loc),
                   error = Some (fs_message e) \<rparr>)
       \<and> (\<exists>cc. readConfig rt loc = Inr cc \<and> (\<forall>e. error cc = Some e \<longrightarrow> e \<noteq> []))"
proof -
  have parse: "readConfig rt loc =
             Inr \<lparr> content_path = path loc, content = raw, parsed = None,
                   content_format = format_string (format loc),
                   error = Some (js ''Parse error: ''
                                   @ message_or e (js ''Unknown parsing error'')) \<rparr>"
    if "fs_readFile rt (path loc) = Inr raw" "parse_by_format rt (format loc) raw = Some (Inl e)"
    for raw e
    using that assms by (simp add: readConfig_def readFile_cases)
  have c1: "readConfig rt loc =
             Inr \<lparr> content_path = path loc, content = raw, parsed = None,
                   content_format = js ''json'',
                   error = Some (js ''Parse error: ''
                                   @ message_or e (js ''Unknown parsing error'')) \<rparr>"
    if "fs_readFile rt (path loc) = Inr raw \<and> format loc = Json \<and> JSON_parse rt raw = Inl e"
    for raw e
    using that parse [of raw e] by simp
  have c2: "readConfig rt loc =
             Inr \<lparr> content_path = path loc, content = raw, parsed = None,
                   content_format = js ''plist'',
                   error = Some (js ''Parse error: ''
                                   @ message_or e (js ''Unknown parsing error'')) \<rparr>"
    if "fs_readFile rt (path loc) = Inr raw \<and> format loc = Plist \<and> plist_parse rt raw = Inl e"
    for raw e
    using that parse [of raw e] by simp
  have c3: "readConfig rt loc =
             Inr \<lparr> content_path = path loc, content = raw, parsed = None,
                   content_format = js ''yaml'',
                   error = Some (js ''Parse error: ''
                                   @ message_or e (js ''Unknown parsing error'')) \<rparr>"
    if "fs_readFile rt (path loc) = Inr raw \<and> format loc = Yaml \<and> yaml_load rt raw = Inl e"
    for raw e
    using that parse [of raw e] by simp
  have c4: "readConfig rt loc =
             Inr \<lparr> content_path = path loc, content = [], parsed = None,
                   content_format = format_string (format loc),
                   error = Some (fs_message e) \<rparr>"
    if "fs_readFile rt (path loc) = Inl e" for e
    using that assms by (simp add: readConfig_def readFile_cases)
  obtain cc where cc: "readConfig rt loc = Inr cc"
    using readConfig_total by blast
  with readConfig_error_nonempty [OF cc]
  have c5: "\<exists>cc. readConfig rt loc = Inr cc \<and> (\<forall>e. error cc = Some e \<longrightarrow> e \<noteq> [])"
    by blast
  from c1 c2 c3 c4 c5 show ?thesis
    by (intro conjI allI impI)
qed

theorem readConfig_failures_witness:
  "type (file_location ''/home/u/.vscode/mcp.json'' Json) = File
   \<and> JSON_parse example_runtime (js ''{ broken'')
       = Inl (ErrorObject (js ''SyntaxError'') (js ''Unexpected end of JSON input''))
   \<and> readConfig example_runtime (file_location ''/home/u/.vscode/mcp.json'' Json)
       = Inr \<lparr> content_path = js ''/home/u/.vscode/mcp.json'', content = js ''{ broken'',
               parsed = None, content_format = js ''json'',
               error = Some (js ''Parse error: Unexpected end of JSON input'') \<rparr>
   \<and> plist_parse example_runtime (js ''<plist'')
       = Inl (ErrorObject (js ''Error'') (js ''malformed document''))
   \<and> readConfig example_runtime (file_location ''/home/u/broken.plist'' Plist)
       = Inr \<lparr> content_path = js ''/home/u/broken.plist'', content = js ''<plist'',
               parsed = None, content_format = js ''plist'',
               error = Some (js ''Parse error: malformed document'') \<rparr>
   \<and> yaml_load example_runtime (js ''a: ['')
       = Inl (ErrorObject (js ''YAMLException'') (js ''unexpected end of the stream''))
   \<and> readConfig example_runtime (file_location ''/home/u/broken.yaml'' Yaml)
       = Inr \<lparr> content_path = js ''/home/u/broken.yaml'', content = js ''a: ['',
               parsed = None, content_format = js ''yaml'',
               error = Some (js ''Parse error: unexpected end of the stream'') \<rparr>
   \<and> fs_readFile example_runtime (js ''/home/u/missing.json'') = Inl ENOENT
   \<and> readConfig example_runtime (file_location ''/home/u/missing.json'' Json)
       = Inr \<lparr> content_path = js ''/home/u/missing.json'', content = [], parsed = None,
               content_format = js ''json'',
               error = Some (js ''ENOENT: no such file or directory'') \<rparr>"
proof -
  have t: "type (file_location p f) = File" "path (file_location p f) = js p"
    "format (file_location p f) = f" for p f
    by (simp_all add: file_location_def)
  have r1: "fs_readFile example_runtime (js ''/home/u/.vscode/mcp.json'') = Inr (js ''{ broken'')"
    and r2: "fs_readFile example_runtime (js ''/home/u/broken.plist'') = Inr (js ''<plist'')"
    and r3: "fs_readFile example_runtime (js ''/home/u/broken.yaml'') = Inr (js ''a: ['')"
    and r4: "fs_readFile example_runtime (js ''/home/u/missing.json'') = Inl ENOENT"
    by (simp_all add: example_runtime_def example_files_def)
  have p1: "JSON_parse example_runtime (js ''{ broken'')
       = Inl (ErrorObject (js ''SyntaxError'') (js ''Unexpected end of JSON input''))"
    and p2: "plist_parse example_runtime (js ''<plist'')
       = Inl (ErrorObject (js ''Error'') (js ''malformed document''))"
    and p3: "yaml_load example_runtime (js ''a: ['')
       = Inl (ErrorObject (js ''YAMLException'') (js ''unexpected end of the stream''))"
    by (simp_all add: example_runtime_def zero_text_def)
  note f1 = readConfig_failures [where loc = "file_location ''/home/u/.vscode/mcp.json'' Json" and rt = example_runtime, OF t(1)]
  note f2 = readConfig_failures [where loc = "file_location ''/home/u/broken.plist'' Plist" and rt = example_runtime, OF t(1)]
  note f3 = readConfig_failures [where loc = "file_location ''/home/u/broken.yaml'' Yaml" and rt = example_runtime, OF t(1)]
  note f4 = readConfig_failures [where loc = "file_location ''/home/u/missing.json'' Json" and rt = example_runtime, OF t(1)]
  have c1: "readConfig example_runtime (file_location ''/home/u/.vscode/mcp.json'' Json)
       = Inr \<lparr> content_path = js ''/home/u/.vscode/mcp.json'', content = js ''{ broken'',
               parsed = None, content_format = js ''json'',
               error = Some (js ''Parse error: Unexpected end of JSON input'') \<rparr>"
    using f1 [unfolded t] r1 p1 by simp
  have c2: "readConfig example_runtime (file_location ''/home/u/broken.plist'' Plist)
       = Inr \<lparr> content_path = js ''/home/u/broken.plist'', content = js ''<plist'',
               parsed = None, content_format = js ''plist'',
               error = Some (js ''Parse error: malformed document'') \<rparr>"
    using f2 [unfolded t] r2 p2 by simp
  have c3: "readConfig example_runtime (file_location ''/home/u/broken.yaml'' Yaml)
       = Inr \<lparr> content_path = js ''/home/u/broken.yaml'', content = js ''a: ['',
               parsed = None, content_format = js ''yaml'',
               error = Some (js ''Parse error: unexpected end of the stream'') \<rparr>"
    using f3 [unfolded t] r3 p3 by simp
  have c4: "readConfig example_runtime (file_location ''/home/u/missing.json'' Json)
       = Inr \<lparr> content_path = js ''/home/u/missing.json'', content = [], parsed = None,
               content_format = js ''json'',
               error = Some (js ''ENOENT: no such file or directory'') \<rparr>"
    using f4 [unfolded t] r4 by (simp add: ENOENT_def)
  show ?thesis
    using t(1) p1 c1 p2 c2 p3 c3 r4 c4 by (intro conjI)
qed








text \<open>
  C6. For a directory-type location whose directory can be listed, \<open>readConfig\<close> returns
  the body \<open>Directory contents:\<close> followed by one indented line per kept entry, and the
  list of kept entries as the parsed value, with format \<open>directory\<close> and no error. The
  kept entries are sorted (lexicographically by code units, the order of the default
  \<open>sort\<close>) and are exactly the listed entries whose name does not start with a dot, each
  as often as it was listed.
\<close>

theorem readConfig_directory_listing:
  assumes "type loc = Directory" and "fs_readdir rt (path loc) = Inr entries"
  shows "\<exists>fileList.
           readConfig rt loc =
             Inr \<lparr> content_path = path loc,
                   content = js ''Directory contents:'' @ [cu (CHR 0x0A)]
                               @ join_str [cu (CHR 0x0A)] (map ((@) (js ''  '')) fileList),
                   parsed = Some (JArr (map JStr fileList)),
                   content_format = js ''directory'',
                   error = None \<rparr>
         \<and> sorted fileList
         \<and> mset fileList = filter_mset (\<lambda>name. \<not> starts_with_dot name) (mset entries)"
proof -
  define fileList
    where "fileList = sort_strings (filter (\<lambda>entry. \<not> startsWith entry (js ''.'')) entries)"
  have "readConfig rt loc =
             Inr \<lparr> content_path = path loc,
                   content = js ''Directory contents:'' @ [cu (CHR 0x0A)]
                               @ join_str [cu (CHR 0x0A)] (map ((@) (js ''  '')) fileList),
                   parsed = Some (JArr (map JStr fileList)),
                   content_format = js ''directory'',
                   error = None \<rparr>"
    using assms unfolding fileList_def readConfig_def readDirectory_def Let_def by simp
  moreover have "sorted fileList"
    by (simp add: fileList_def sort_strings_def)
  moreover have "mset fileList = filter_mset (\<lambda>name. \<not> starts_with_dot name) (mset entries)"
    unfolding fileList_def sort_strings_def startsWith_dot by simp
  ultimately show ?thesis
    by blast
qed

theorem readConfig_directory_listing_witness:
  "type (directory_location ''/home/u/.claude/'') = Directory
   \<and> fs_readdir example_runtime (js ''/home/u/.claude/'')
       = Inr [js ''a.json'', js ''.hidden'', js ''b.txt'']
   \<and> readConfig example_runtime (directory_location ''/home/u/.claude/'') =
        Inr \<lparr> content_path = js ''/home/u/.claude/'',
              content = js ''Directory contents:'' @ [cu (CHR 0x0A)] @ js ''  a.json''
                          @ [cu (CHR 0x0A)] @ js ''  b.txt'',
              parsed = Some (JArr [JStr (js ''a.json''), JStr (js ''b.txt'')]),
              content_format = js ''directory'',
              error = None \<rparr>
   \<and> sorted [js ''a.json'', js ''b.txt'']
   \<and> fs_readdir example_runtime (js ''/home/u/names/'')
       = Inr [[0xFF5E], js ''z'', [0xD83D, 0xDE00], js ''.git'']
   \<and> readConfig example_runtime (directory_location ''/home/u/names/'') =
        Inr \<lparr> content_path = js ''/home/u/names/'',
              content = js ''Directory contents:'' @ [cu (CHR 0x0A)] @ js ''  z''
                          @ [cu (CHR 0x0A)] @ js ''  '' @ [0xD83D, 0xDE00]
                          @ [cu (CHR 0x0A)] @ js ''  '' @ [0xFF5E],
              parsed = Some (JArr [JStr (js ''z''), JStr [0xD83D, 0xDE00], JStr [0xFF5E]]),
              content_format = js ''directory'',
              error = None \<rparr>"
proof -
  let ?loc = "directory_location ''/home/u/.claude/''"
  have t: "type (directory_location p) = Directory" "path (directory_location p) = js p" for p
    by (simp_all add: directory_location_def)
  have r: "fs_readdir example_runtime (js ''/home/u/.claude/'')
             = Inr [js ''a.json'', js ''.hidden'', js ''b.txt'']"
    and r2: "fs_readdir example_runtime (js ''/home/u/names/'')
             = Inr [[0xFF5E], js ''z'', [0xD83D, 0xDE00], js ''.git'']"
    by (simp_all add: example_runtime_def example_directories_def)
  have ev: "readConfig example_runtime ?loc =
        Inr \<lparr> content_path = js ''/home/u/.claude/'',
              content = js ''Directory contents:'' @ [cu (CHR 0x0A)] @ js ''  a.json''
                          @ [cu (CHR 0x0A)] @ js ''  b.txt'',
              parsed = Some (JArr [JStr (js ''a.json''), JStr (js ''b.txt'')]),
              content_format = js ''directory'',
              error = None \<rparr>"
    by (simp add: readConfig_def readDirectory_def directory_location_def example_runtime_def
          example_directories_def sort_strings_def Let_def)
  have ev2: "readConfig example_runtime (directory_location ''/home/u/names/'') =
        Inr \<lparr> content_path = js ''/home/u/names/'',
              content = js ''Directory contents:'' @ [cu (CHR 0x0A)] @ js ''  z''
                          @ [cu (CHR 0x0A)] @ js ''  '' @ [0xD83D, 0xDE00]
                          @ [cu (CHR 0x0A)] @ js ''  '' @ [0xFF5E],
              parsed = Some (JArr [JStr (js ''z''), JStr [0xD83D, 0xDE00], JStr [0xFF5E]]),
              content_format = js ''directory'',
              error = None \<rparr>"
    by (simp add: readConfig_def readDirectory_def directory_location_def example_runtime_def
          example_directories_def sort_strings_def Let_def)
  obtain fileList where rc: "readConfig example_runtime ?loc =
             Inr \<lparr> content_path = js ''/home/u/.claude/'',
                   content = js ''Directory contents:'' @ [cu (CHR 0x0A)]
                               @ join_str [cu (CHR 0x0A)] (map ((@) (js ''  '')) fileList),
                   parsed = Some (JArr (map JStr fileList)),
                   content_format = js ''directory'',
                   error = None \<rparr>"
    and s: "sorted fileList"
    using readConfig_directory_listing [where loc = ?loc and rt = example_runtime,
        OF t(1), unfolded t, OF r]
    by (elim exE conjE) (rule that; assumption)
  from rc ev have "map JStr fileList = map JStr [js ''a.json'', js ''b.txt'']"
    by simp
  then have "fileList = [js ''a.json'', js ''b.txt'']"
    by (simp add: map_eq_Cons_conv)
  with s have so: "sorted [js ''a.json'', js ''b.txt'']"
    by (simp only:)
  show ?thesis
    using t(1) r ev so r2 ev2 by (intro conjI)
qed

text \<open>
  C7. For a file-type location of format \<open>json\<close> whose text the JSON parser of the
  runtime accepts with value \<open>v\<close> (the text is a serialization of \<open>v\<close>), \<open>readConfig\<close>
  returns the text as content, \<open>v\<close> as the parsed value, and no error.
\<close>

theorem readConfig_json_round_trip:
  assumes "type loc = File" and "format loc = Json"
    and "fs_readFile rt (path loc) = Inr raw" and "JSON_parse rt raw = Inr v"
  shows "readConfig rt loc =
           Inr \<lparr> content_path = path loc, content = raw, parsed = Some v,
                 content_format = js ''json'', error = None \<rparr>"
  using assms by (simp add: readConfig_def readFile_cases)

theorem readConfig_json_round_trip_witness:
  "type (file_location ''/home/u/.cursor/mcp.json'' Json) = File
   \<and> format (file_location ''/home/u/.cursor/mcp.json'' Json) = Json
   \<and> fs_readFile example_runtime (path (file_location ''/home/u/.cursor/mcp.json'' Json))
       = Inr (js ''[1, 2]'')
   \<and> JSON_parse example_runtime (js ''[1, 2]'') = Inr (JArr [JNum (Finite 1), JNum (Finite 2)])
   \<and> readConfig example_runtime (file_location ''/home/u/.cursor/mcp.json'' Json) =
        Inr \<lparr> content_path = js ''/home/u/.cursor/mcp.json'', content = js ''[1, 2]'',
              parsed = Some (JArr [JNum (Finite 1), JNum (Finite 2)]),
              content_format = js ''json'', error = None \<rparr>"
proof -
  let ?loc = "file_location ''/home/u/.cursor/mcp.json'' Json"
  have t: "type ?loc = File" and f: "format ?loc = Json"
    by (simp_all add: file_location_def)
  have r: "fs_readFile example_runtime (path ?loc) = Inr (js ''[1, 2]'')"
    by (simp add: file_location_def example_runtime_def example_files_def)
  have p: "JSON_parse example_runtime (js ''[1, 2]'')
             = Inr (JArr [JNum (Finite 1), JNum (Finite 2)])"
    by (simp add: example_runtime_def)
  have "path ?loc = js ''/home/u/.cursor/mcp.json''"
    by (simp add: file_location_def)
  with readConfig_json_round_trip [OF t f r p]
  have "readConfig example_runtime ?loc =
        Inr \<lparr> content_path = js ''/home/u/.cursor/mcp.json'', content = js ''[1, 2]'',
              parsed = Some (JArr [JNum (Finite 1), JNum (Finite 2)]),
              content_format = js ''json'', error = None \<rparr>"
    by simp
  with t f r p show ?thesis
    by (intro conjI)
qed

text \<open>
  C10. A file of format \<open>json\<close> or \<open>plist\<close> whose text its parser (\<open>JSON.parse\<close>,
  \<open>plist.parse\<close>) turns into a falsy value (\<open>null\<close>, \<open>false\<close>, zero, the empty string) is
  read without error, with that value as the parsed value; \<open>formatConfigForDisplay\<close> then
  takes the raw-text branch, whatever the pretty-printer would give for the value: the
  header followed by the raw text when that has at most 50 lines, and otherwise by its
  first 50 lines and the notice with the total number of lines.
\<close>

theorem falsy_parsed_displayed_raw:
  assumes "type loc = File"
    and "fs_readFile rt (path loc) = Inr raw"
    and "(format loc = Json \<and> JSON_parse rt raw = Inr v)
         \<or> (format loc = Plist \<and> plist_parse rt raw = Inr v)"
    and "\<not> truthy v"
  shows "\<exists>cc. readConfig rt loc = Inr cc
           \<and> content cc = raw \<and> parsed cc = Some v \<and> error cc = None
           \<and> (length (split_str (cu (CHR 0x0A)) raw) \<le> 50 \<longrightarrow>
                formatConfigForDisplay rt cc = display_header cc @ raw)
           \<and> (50 < length (split_str (cu (CHR 0x0A)) raw) \<longrightarrow>
                formatConfigForDisplay rt cc =
                  display_header cc
                    @ join_str [cu (CHR 0x0A)] (take 50 (split_str (cu (CHR 0x0A)) raw))
                    @ [cu (CHR 0x0A), cu (CHR 0x0A)] @ js ''... (showing first 50 lines of ''
                    @ show_nat (length (split_str (cu (CHR 0x0A)) raw)) @ js '' total lines)'')"
proof -
  define cc where "cc = \<lparr> content_path = path loc, content = raw, parsed = Some v,
                           content_format = format_string (format loc), error = None \<rparr>"
  have p: "parse_by_format rt (format loc) raw = Some (Inr v)"
    using assms(3) by auto
  have rc: "readConfig rt loc = Inr cc"
    using assms(1,2) p by (simp add: readConfig_def readFile_cases cc_def)
  have fmt: "content_format cc \<noteq> js ''directory''"
    using assms(3) by (auto simp: cc_def)
  have "formatConfigForDisplay rt cc = display_header cc @ first_lines (content cc)"
    using fmt assms(4) by (intro formatConfigForDisplay_raw_branch) (simp_all add: cc_def)
  then have out: "formatConfigForDisplay rt cc = display_header cc @ first_lines raw"
    by (simp add: cc_def)
  have short: "formatConfigForDisplay rt cc = display_header cc @ raw"
    if "length (split_str (cu (CHR 0x0A)) raw) \<le> 50"
    unfolding out first_lines_short [OF that] ..
  have long: "formatConfigForDisplay rt cc =
                  display_header cc
                    @ join_str [cu (CHR 0x0A)] (take 50 (split_str (cu (CHR 0x0A)) raw))
                    @ [cu (CHR 0x0A), cu (CHR 0x0A)] @ js ''... (showing first 50 lines of ''
                    @ show_nat (length (split_str (cu (CHR 0x0A)) raw)) @ js '' total lines)''"
    if "50 < length (split_str (cu (CHR 0x0A)) raw)"
    unfolding out first_lines_long [OF that] ..
  have c: "content cc = raw" "parsed cc = Some v" "error cc = None"
    by (simp_all add: cc_def)
  from rc c short long show ?thesis
    by (intro exI [of _ cc] conjI impI)
qed

lemma zero_text_split:
  "split_str (cu (CHR 0x0A)) zero_text = replicate 60 [] @ [js ''0'']"
  by code_simp

lemma zero_text_joined:
  "join_str [cu (CHR 0x0A)] (take 50 (replicate 60 [] @ [js ''0''])) = replicate 49 (cu (CHR 0x0A))"
  by code_simp

lemma show_nat_sixty_one: "show_nat 61 = js ''61''"
  by code_simp

lemma zero_text_parsed: "JSON_parse example_runtime zero_text = Inr (JNum (Finite 0))"
  by (simp add: example_runtime_def zero_text_def)

lemma zero_text_read: "fs_readFile example_runtime (js ''/home/u/zero.json'') = Inr zero_text"
  by (simp add: example_runtime_def example_files_def)

theorem falsy_parsed_displayed_raw_witness:
  "readConfig example_runtime (file_location ''/home/u/.gemini/settings.json'' Json)
     = Inr gemini_content
   \<and> formatConfigForDisplay example_runtime gemini_content
       = page_icon @ js '' /home/u/.gemini/settings.json'' @ [cu (CHR 0x0A)]
           @ js ''Format: json'' @ [cu (CHR 0x0A), cu (CHR 0x0A)] @ js '' null''
   \<and> readConfig example_runtime (file_location ''/home/u/flag.plist'' Plist) = Inr flag_content
   \<and> formatConfigForDisplay example_runtime flag_content
       = page_icon @ js '' /home/u/flag.plist'' @ [cu (CHR 0x0A)]
           @ js ''Format: plist'' @ [cu (CHR 0x0A), cu (CHR 0x0A)]
           @ js ''<plist><false/></plist>''
   \<and> readConfig example_runtime (file_location ''/home/u/zero.json'' Json) = Inr zero_content
   \<and> length (split_str (cu (CHR 0x0A)) zero_text) = 61
   \<and> formatConfigForDisplay example_runtime zero_content
       = page_icon @ js '' /home/u/zero.json'' @ [cu (CHR 0x0A)]
           @ js ''Format: json'' @ [cu (CHR 0x0A), cu (CHR 0x0A)]
           @ replicate 49 (cu (CHR 0x0A)) @ [cu (CHR 0x0A), cu (CHR 0x0A)]
           @ js ''... (showing first 50 lines of 61 total lines)''"
proof -
  let ?g = "file_location ''/home/u/.gemini/settings.json'' Json"
  let ?f = "file_location ''/home/u/flag.plist'' Plist"
  let ?z = "file_location ''/home/u/zero.json'' Json"
  have tg: "type ?g = File" and tf: "type ?f = File" and tz: "type ?z = File"
    by (simp_all add: file_location_def)
  have rg: "fs_readFile example_runtime (path ?g) = Inr (js '' null'')"
    and rf: "fs_readFile example_runtime (path ?f) = Inr (js ''<plist><false/></plist>'')"
    by (simp_all add: file_location_def example_runtime_def example_files_def)
  have rz: "fs_readFile example_runtime (path ?z) = Inr zero_text"
    using zero_text_read by (simp add: file_location_def)
  have pg: "(format ?g = Json \<and> JSON_parse example_runtime (js '' null'') = Inr JNull)
            \<or> (format ?g = Plist \<and> plist_parse example_runtime (js '' null'') = Inr JNull)"
    by (simp add: file_location_def example_runtime_def)
  have pf: "(format ?f = Json
              \<and> JSON_parse example_runtime (js ''<plist><false/></plist>'') = Inr (JBool False))
            \<or> (format ?f = Plist
              \<and> plist_parse example_runtime (js ''<plist><false/></plist>'') = Inr (JBool False))"
    by (simp add: file_location_def example_runtime_def)
  have pz: "(format ?z = Json \<and> JSON_parse example_runtime zero_text = Inr (JNum (Finite 0)))
            \<or> (format ?z = Plist \<and> plist_parse example_runtime zero_text = Inr (JNum (Finite 0)))"
    using zero_text_parsed by (simp add: file_location_def)
  have ng: "\<not> truthy JNull" and nf: "\<not> truthy (JBool False)" and nz: "\<not> truthy (JNum (Finite 0))"
    by simp_all
  have eg: "readConfig example_runtime ?g = Inr gemini_content"
    using rg pg by (simp add: readConfig_def readFile_cases file_location_def gemini_content_def)
  have ef: "readConfig example_runtime ?f = Inr flag_content"
    using rf pf by (simp add: readConfig_def readFile_cases file_location_def flag_content_def)
  have ez: "readConfig example_runtime ?z = Inr zero_content"
    using rz pz by (simp add: readConfig_def readFile_cases file_location_def zero_content_def)
  have sg: "length (split_str (cu (CHR 0x0A)) (js '' null'')) \<le> 50"
    and sf: "length (split_str (cu (CHR 0x0A)) (js ''<plist><false/></plist>'')) \<le> 50"
    by (simp_all add: split_str_def)
  have lz: "length (split_str (cu (CHR 0x0A)) zero_text) = 61"
    unfolding zero_text_split by simp
  obtain cg where "readConfig example_runtime ?g = Inr cg"
    and "length (split_str (cu (CHR 0x0A)) (js '' null'')) \<le> 50 \<longrightarrow>
           formatConfigForDisplay example_runtime cg = display_header cg @ js '' null''"
    using falsy_parsed_displayed_raw [OF tg rg pg ng]
    by (elim exE conjE) (rule that; assumption)
  with eg sg have og: "formatConfigForDisplay example_runtime gemini_content
                         = display_header gemini_content @ js '' null''"
    by simp
  obtain cf where "readConfig example_runtime ?f = Inr cf"
    and "length (split_str (cu (CHR 0x0A)) (js ''<plist><false/></plist>'')) \<le> 50 \<longrightarrow>
           formatConfigForDisplay example_runtime cf
             = display_header cf @ js ''<plist><false/></plist>''"
    using falsy_parsed_displayed_raw [OF tf rf pf nf]
    by (elim exE conjE) (rule that; assumption)
  with ef sf have "formatConfigForDisplay example_runtime flag_content
                         = display_header flag_content @ js ''<plist><false/></plist>''"
    by simp
  note of' = this
  obtain cz where "readConfig example_runtime ?z = Inr cz"
    and "50 < length (split_str (cu (CHR 0x0A)) zero_text) \<longrightarrow>
           formatConfigForDisplay example_runtime cz =
             display_header cz
               @ join_str [cu (CHR 0x0A)] (take 50 (split_str (cu (CHR 0x0A)) zero_text))
               @ [cu (CHR 0x0A), cu (CHR 0x0A)] @ js ''... (showing first 50 lines of ''
               @ show_nat (length (split_str (cu (CHR 0x0A)) zero_text)) @ js '' total lines)''"
    using falsy_parsed_displayed_raw [OF tz rz pz nz]
    by (elim exE conjE) (rule that; assumption)
  with ez lz have "formatConfigForDisplay example_runtime zero_content =
             display_header zero_content
               @ join_str [cu (CHR 0x0A)] (take 50 (split_str (cu (CHR 0x0A)) zero_text))
               @ [cu (CHR 0x0A), cu (CHR 0x0A)] @ js ''... (showing first 50 lines of ''
               @ show_nat 61 @ js '' total lines)''"
    by simp
  then have oz: "formatConfigForDisplay example_runtime zero_content =
             display_header zero_content @ replicate 49 (cu (CHR 0x0A))
               @ [cu (CHR 0x0A), cu (CHR 0x0A)] @ js ''... (showing first 50 lines of ''
               @ js ''61'' @ js '' total lines)''"
    unfolding zero_text_split zero_text_joined show_nat_sixty_one .
  have hg: "formatConfigForDisplay example_runtime gemini_content
       = page_icon @ js '' /home/u/.gemini/settings.json'' @ [cu (CHR 0x0A)]
           @ js ''Format: json'' @ [cu (CHR 0x0A), cu (CHR 0x0A)] @ js '' null''"
    unfolding og by (simp add: display_header_def gemini_content_def)
  have hf: "formatConfigForDisplay example_runtime flag_content
       = page_icon @ js '' /home/u/flag.plist'' @ [cu (CHR 0x0A)]
           @ js ''Format: plist'' @ [cu (CHR 0x0A), cu (CHR 0x0A)]
           @ js ''<plist><false/></plist>''"
    unfolding of' by (simp add: display_header_def flag_content_def)
  have hz: "formatConfigForDisplay example_runtime zero_content
       = page_icon @ js '' /home/u/zero.json'' @ [cu (CHR 0x0A)]
           @ js ''Format: json'' @ [cu (CHR 0x0A), cu (CHR 0x0A)]
           @ replicate 49 (cu (CHR 0x0A)) @ [cu (CHR 0x0A), cu (CHR 0x0A)]
           @ js ''... (showing first 50 lines of 61 total lines)''"
    unfolding oz by (simp add: display_header_def zero_content_def)
  from eg hg ef hf ez lz hz show ?thesis
    by (intro conjI)
qed

text \<open>
  C8, as stated: json or plist content with a successfully parsed value is displayed as
  a pretty-printed dump. This fails for the Gemini settings of the example: the text
  \<open> null\<close> (with a leading space) parses to \<open>null\<close> without error, and the display is
  the header followed by the raw text, not by the dump \<open>null\<close>.
\<close>

theorem formatConfigForDisplay_counterexample:
  "readConfig example_runtime (file_location ''/home/u/.gemini/settings.json'' Json) = Inr gemini_content
   \<and> content_format gemini_content = js ''json''
   \<and> parsed gemini_content = Some JNull
   \<and> error gemini_content = None
   \<and> formatConfigForDisplay example_runtime gemini_content
       = display_header gemini_content @ js '' null''
   \<and> formatConfigForDisplay example_runtime gemini_content
       \<noteq> display_header gemini_content @ JSON_stringify example_runtime JNull"
  by (simp add: readConfig_def readFile_cases file_location_def gemini_content_def
        example_runtime_def example_files_def formatConfigForDisplay_def first_lines_def
        split_str_def)

text \<open>
  C8, amended. When the error is a non-empty string the result is
  \<open>Error reading <path>: <error>\<close>, one line if neither part contains a line break.
  Otherwise the result is the header (path and format) followed by: the pre-built listing
  for the format \<open>directory\<close>; the pretty-printed dump of the parsed value for the
  formats \<open>json\<close> and \<open>plist\<close> when that value is truthy; in the remaining cases the
  raw text, and when that has more than 50 lines, its first 50 lines followed by the
  notice with the total number of lines.
\<close>

theorem formatConfigForDisplay_branches:
  "(truthy_string (error cc) \<longrightarrow>
      (\<exists>e. error cc = Some e \<and> e \<noteq> []
         \<and> formatConfigForDisplay rt cc = js ''Error reading '' @ content_path cc @ js '': '' @ e
         \<and> (cu (CHR 0x0A) \<notin> set (content_path cc) \<and> cu (CHR 0x0A) \<notin> set e \<longrightarrow>
              cu (CHR 0x0A) \<notin> set (formatConfigForDisplay rt cc))))
   \<and> (\<not> truthy_string (error cc) \<and> content_format cc = js ''directory'' \<longrightarrow>
        formatConfigForDisplay rt cc = display_header cc @ content cc)
   \<and> (\<not> truthy_string (error cc)
        \<and> (content_format cc = js ''json'' \<or> content_format cc = js ''plist'')
        \<and> truthy_any (parsed cc) \<longrightarrow>
        (\<exists>v. parsed cc = Some v \<and> truthy v
           \<and> formatConfigForDisplay rt cc = display_header cc @ JSON_stringify rt v))
   \<and> (\<not> truthy_string (error cc) \<and> content_format cc \<noteq> js ''directory''
        \<and> \<not> (truthy_any (parsed cc)
              \<and> (content_format cc = js ''json'' \<or> content_format cc = js ''plist'')) \<longrightarrow>
        (length (split_str (cu (CHR 0x0A)) (content cc)) \<le> 50 \<longrightarrow>
           formatConfigForDisplay rt cc = display_header cc @ content cc)
        \<and> (50 < length (split_str (cu (CHR 0x0A)) (content cc)) \<longrightarrow>
             formatConfigForDisplay rt cc =
               display_header cc
                 @ join_str [cu (CHR 0x0A)] (take 50 (split_str (cu (CHR 0x0A)) (content cc)))
                 @ [cu (CHR 0x0A), cu (CHR 0x0A)] @ js ''... (showing first 50 lines of ''
                 @ show_nat (length (split_str (cu (CHR 0x0A)) (content cc))) @ js '' total lines)''
             \<and> split_str (cu (CHR 0x0A))
                   (join_str [cu (CHR 0x0A)] (take 50 (split_str (cu (CHR 0x0A)) (content cc))))
                 = take 50 (split_str (cu (CHR 0x0A)) (content cc))))"
proof (intro conjI impI)
  assume "truthy_string (error cc)"
  then obtain e where e: "error cc = Some e" "e \<noteq> []"
    by (cases "error cc") auto
  then have out: "formatConfigForDisplay rt cc = js ''Error reading '' @ content_path cc @ js '': '' @ e"
    by (simp add: formatConfigForDisplay_def)
  have "cu (CHR 0x0A) \<notin> set (formatConfigForDisplay rt cc)"
    if "cu (CHR 0x0A) \<notin> set (content_path cc) \<and> cu (CHR 0x0A) \<notin> set e"
    using that unfolding out by simp
  with e out show "\<exists>e. error cc = Some e \<and> e \<noteq> []
         \<and> formatConfigForDisplay rt cc = js ''Error reading '' @ content_path cc @ js '': '' @ e
         \<and> (cu (CHR 0x0A) \<notin> set (content_path cc) \<and> cu (CHR 0x0A) \<notin> set e \<longrightarrow>
              cu (CHR 0x0A) \<notin> set (formatConfigForDisplay rt cc))"
    by blast
next
  assume "\<not> truthy_string (error cc) \<and> content_format cc = js ''directory''"
  then show "formatConfigForDisplay rt cc = display_header cc @ content cc"
    by (simp add: formatConfigForDisplay_def)
next
  assume a: "\<not> truthy_string (error cc)
        \<and> (content_format cc = js ''json'' \<or> content_format cc = js ''plist'')
        \<and> truthy_any (parsed cc)"
  then obtain v where v: "parsed cc = Some v" "truthy v"
    by (cases "parsed cc") auto
  from a have "content_format cc \<noteq> js ''directory''"
    by auto
  with a v have "formatConfigForDisplay rt cc = display_header cc @ JSON_stringify rt v"
    by (simp add: formatConfigForDisplay_def)
  with v show "\<exists>v. parsed cc = Some v \<and> truthy v
           \<and> formatConfigForDisplay rt cc = display_header cc @ JSON_stringify rt v"
    by blast
next
  assume a: "\<not> truthy_string (error cc) \<and> content_format cc \<noteq> js ''directory''
        \<and> \<not> (truthy_any (parsed cc)
              \<and> (content_format cc = js ''json'' \<or> content_format cc = js ''plist''))"
  then have raw: "formatConfigForDisplay rt cc = display_header cc @ first_lines (content cc)"
    by (intro formatConfigForDisplay_raw_branch) simp_all
  { assume "length (split_str (cu (CHR 0x0A)) (content cc)) \<le> 50"
    then show "formatConfigForDisplay rt cc = display_header cc @ content cc"
      unfolding raw by (simp add: first_lines_short) }
  { assume long: "50 < length (split_str (cu (CHR 0x0A)) (content cc))"
    show "formatConfigForDisplay rt cc =
               display_header cc
                 @ join_str [cu (CHR 0x0A)] (take 50 (split_str (cu (CHR 0x0A)) (content cc)))
                 @ [cu (CHR 0x0A), cu (CHR 0x0A)] @ js ''... (showing first 50 lines of ''
                 @ show_nat (length (split_str (cu (CHR 0x0A)) (content cc))) @ js '' total lines)''"
      unfolding raw first_lines_long [OF long] by simp
    show "split_str (cu (CHR 0x0A))
                   (join_str [cu (CHR 0x0A)] (take 50 (split_str (cu (CHR 0x0A)) (content cc))))
                 = take 50 (split_str (cu (CHR 0x0A)) (content cc))"
      using long by (intro split_join_take) simp_all }
qed

theorem formatConfigForDisplay_branches_witness:
  "\<not> truthy_string (error sixty_lines)
   \<and> content_format sixty_lines = js ''text''
   \<and> length (split_str (cu (CHR 0x0A)) (content sixty_lines)) = 60
   \<and> formatConfigForDisplay example_runtime sixty_lines =
        display_header sixty_lines
          @ concat (replicate 49 (js ''x'' @ [cu (CHR 0x0A)])) @ js ''x''
          @ [cu (CHR 0x0A), cu (CHR 0x0A)] @ js ''... (showing first 50 lines of 60 total lines)''"
proof -
  have e: "\<not> truthy_string (error sixty_lines)"
    and f: "content_format sixty_lines = js ''text''"
    and p: "parsed sixty_lines = None"
    by (simp_all add: sixty_lines_def)
  have len: "length (split_str (cu (CHR 0x0A)) (content sixty_lines)) = 60"
    unfolding sixty_lines_split by simp
  have hyp: "\<not> truthy_string (error sixty_lines) \<and> content_format sixty_lines \<noteq> js ''directory''
        \<and> \<not> (truthy_any (parsed sixty_lines)
              \<and> (content_format sixty_lines = js ''json'' \<or> content_format sixty_lines = js ''plist''))"
    using e by (simp add: f p)
  have long: "50 < length (split_str (cu (CHR 0x0A)) (content sixty_lines))"
    unfolding len by simp
  from formatConfigForDisplay_branches [of sixty_lines example_runtime] hyp long
  have "formatConfigForDisplay example_runtime sixty_lines =
               display_header sixty_lines
                 @ join_str [cu (CHR 0x0A)] (take 50 (split_str (cu (CHR 0x0A)) (content sixty_lines)))
                 @ [cu (CHR 0x0A), cu (CHR 0x0A)] @ js ''... (showing first 50 lines of ''
                 @ show_nat (length (split_str (cu (CHR 0x0A)) (content sixty_lines))) @ js '' total lines)''"
    by blast
  then have "formatConfigForDisplay example_runtime sixty_lines =
        display_header sixty_lines
          @ concat (replicate 49 (js ''x'' @ [cu (CHR 0x0A)])) @ js ''x''
          @ [cu (CHR 0x0A), cu (CHR 0x0A)] @ js ''... (showing first 50 lines of 60 total lines)''"
    unfolding len show_nat_sixty unfolding sixty_lines_split sixty_lines_joined by simp
  with e f len show ?thesis
    by (intro conjI)
qed
end
